theory Spec2Isabelle
  imports Complex_Main
begin

section \<open>Data model (services/payment/core/types.ts)\<close>

text \<open>
  The payment service of the repository: \<^verbatim>\<open>PaymentService\<close> (processTransaction,
  processRefund), \<^verbatim>\<open>LedgerManager\<close> and \<^verbatim>\<open>PaymentProcessor\<close>, over the two tables of
  \<^verbatim>\<open>services/payment/database/schema.sql\<close>. The database is modelled by the meaning of
  the SQL statements that LedgerManager issues, with the constraints that schema.sql
  declares.

  Amounts and balances are the \<^verbatim>\<open>DECIMAL(19, 4)\<close> columns of schema.sql. They are
  modelled exactly, as integers counting ten-thousandths: 10.00 is \<open>100000\<close>, 49.99 is
  \<open>499900\<close>. A value that does not fit the column (10 to the power 15 or more, in
  either direction) makes the statement that stores it fail. The length bounds of the text
  columns are not modelled.
  Identifiers of rows (\<^verbatim>\<open>generateId\<close>) are natural numbers; owner identifiers are strings.
  Timestamps are natural numbers, and one call of the service reads the clock once.
  The service is taken as initialised: its configuration, ledger and processor exist.
\<close>

datatype Currency = USD | EUR | GBP | CAD | AUD

datatype TransactionStatus = pending | processing | completed | failed | refunded | cancelled

datatype AccountType = user | platform | escrow | merchant

datatype AccountStatus = active | suspended | closed

datatype PaymentMethod =
  credit_card | debit_card | bank_transfer | paypal | stripe | apple_pay | google_pay

definition SELF_ENTITY :: string where
  "SELF_ENTITY = ''__SELF__''"

text \<open>
  The metadata object of a transaction. Besides the fields of \<^verbatim>\<open>TransactionMetadata\<close> it
  holds the three keys the service itself writes: \<^verbatim>\<open>idempotencyKey\<close>
  (processTransaction), \<^verbatim>\<open>reason\<close> and \<^verbatim>\<open>originalTransactionId\<close> (processRefund).
  An absent key is \<open>None\<close>.
\<close>

record TransactionMetadata =
  description :: "string option"
  orderId :: "string option"
  invoiceId :: "string option"
  category :: "string option"
  tags :: "string list option"
  customFields :: "(string \<times> string) list option"
  idempotencyKey :: "string option"
  reason :: "string option"
  originalTransactionId :: "nat option"

definition emptyMetadata :: TransactionMetadata where
  "emptyMetadata = \<lparr> description = None, orderId = None, invoiceId = None, category = None,
     tags = None, customFields = None, idempotencyKey = None, reason = None,
     originalTransactionId = None \<rparr>"

record Transaction =
  txId :: nat
  payerId :: string
  payeeId :: string
  amount :: int
  currency :: Currency
  status :: TransactionStatus
  paymentMethod :: "PaymentMethod option"
  processorReference :: "string option"
  metadata :: TransactionMetadata
  createdAt :: nat
  updatedAt :: nat
  completedAt :: "nat option"

record Account =
  accId :: nat
  ownerId :: string
  accType :: AccountType
  balance :: int
  accCurrency :: Currency
  accStatus :: AccountStatus
  accCreatedAt :: nat
  accUpdatedAt :: nat

datatype Provider = provider_stripe | provider_paypal | provider_square | provider_mock

text \<open>An optional boolean of the configuration is \<open>False\<close> when it is not given.\<close>

record PaymentProcessorConfig =
  provider :: Provider
  apiKey :: string
  testMode :: bool

record PaymentServiceConfig =
  processor :: PaymentProcessorConfig
  defaultCurrency :: Currency
  minTransactionAmount :: "int option"
  maxTransactionAmount :: "int option"
  refundsEnabled :: bool

record ProcessTransactionRequest =
  rqPayerId :: string
  rqPayeeId :: string
  rqAmount :: int
  rqCurrency :: "Currency option"
  rqPaymentMethod :: "PaymentMethod option"
  rqMetadata :: TransactionMetadata
  rqIdempotencyKey :: "string option"

record RefundRequest =
  transactionId :: nat
  rfAmount :: "int option"
  rfReason :: "string option"

text \<open>
  A \<^verbatim>\<open>TransactionResult\<close> is built in two shapes only:
  \<^verbatim>\<open>{ success: true, transaction }\<close> and \<^verbatim>\<open>{ success: false, error: { code, message } }\<close>.
\<close>

datatype TransactionResult = Success Transaction | Failure string string

section \<open>The collaborators: storage, processor log, event bus, clock\<close>

datatype ProcessorCall =
  Charge int Currency PaymentMethod nat string string
| Refund string int Currency

text \<open>
  The state outside the service: the two tables of schema.sql, the calls received by the
  payment processor, and the events handed to the event bus.
\<close>

record World =
  accounts :: "Account list"
  transactions :: "Transaction list"
  processorLog :: "ProcessorCall list"
  events :: "(string \<times> Transaction) list"

text \<open>
  What one request reads from outside: the clock (\<^verbatim>\<open>new Date()\<close>), the draw of
  \<^verbatim>\<open>Math.random()\<close> that decides the mock processor's failure, and the suffix
  \<^verbatim>\<open>${Date.now()}_${Math.random().toString(36).substr(2, 9)}\<close> of a processor reference.
\<close>

record Outside =
  now :: nat
  rnd :: rat
  stamp :: string

text \<open>
  A thrown \<^verbatim>\<open>Error\<close> is \<open>Inl\<close> of its message. An operation returns its outcome and the
  world it leaves behind, so that what was written before a throw stays written.
\<close>

type_synonym 'a Async = "World \<Rightarrow> (string + 'a) \<times> World"

definition resolve :: "'a \<Rightarrow> 'a Async" where
  "resolve x w = (Inr x, w)"

definition throw :: "string \<Rightarrow> 'a Async" where
  "throw e w = (Inl e, w)"

definition andThen :: "'a Async \<Rightarrow> ('a \<Rightarrow> 'b Async) \<Rightarrow> 'b Async" where
  "andThen m f w = (case m w of (Inl e, w') \<Rightarrow> (Inl e, w') | (Inr x, w') \<Rightarrow> f x w')"

section \<open>Storage: the SQL statements of LedgerManager.ts against schema.sql\<close>

text \<open>
  \<^verbatim>\<open>generateId\<close> joins the clock and a random string; the model takes the identifier
  collaborator to return an identifier that no row of either table carries.
\<close>

definition generateId :: "World \<Rightarrow> nat" where
  "generateId w = Suc (foldr max (map txId (transactions w) @ map accId (accounts w)) 0)"

text \<open>
  The values of a \<^verbatim>\<open>DECIMAL(19, 4)\<close> column, in ten-thousandths: fifteen digits before the
  point and four after it.
\<close>

definition fitsColumn :: "int \<Rightarrow> bool" where
  "fitsColumn x = (- (10 ^ 19) < x \<and> x < 10 ^ 19)"

text \<open>
  INSERT INTO transactions: the range of the amount column, the primary key and the
  constraints \<^verbatim>\<open>positive_amount CHECK (amount > 0)\<close> and
  \<^verbatim>\<open>different_parties CHECK (payer_id != payee_id)\<close>. A statement that violates one of
  them throws and writes nothing; the message is represented by the constraint's name, and
  by \<open>numeric field overflow\<close> for the range.
\<close>

definition sqlInsertTransaction :: "Transaction \<Rightarrow> World \<Rightarrow> string + World" where
  "sqlInsertTransaction t w =
     (if \<not> fitsColumn (amount t) then Inl ''numeric field overflow''
      else if txId t \<in> set (map txId (transactions w)) then Inl ''transactions_pkey''
      else if \<not> 0 < amount t then Inl ''positive_amount''
      else if payerId t = payeeId t then Inl ''different_parties''
      else Inr (w\<lparr>transactions := transactions w @ [t]\<rparr>))"

text \<open>
  UPDATE transactions SET status, processor_reference, metadata, updated_at, completed_at
  WHERE id = $6.
\<close>

definition updateRows :: "nat \<Rightarrow> Transaction \<Rightarrow> Transaction list \<Rightarrow> Transaction list" where
  "updateRows i u rows =
     map (\<lambda>row. if txId row = i
                 then row\<lparr>status := status u, processorReference := processorReference u,
                          metadata := metadata u, updatedAt := updatedAt u,
                          completedAt := completedAt u\<rparr>
                 else row) rows"

definition sqlUpdateTransaction :: "nat \<Rightarrow> Transaction \<Rightarrow> World \<Rightarrow> World" where
  "sqlUpdateTransaction i u w = w\<lparr>transactions := updateRows i u (transactions w)\<rparr>"

text \<open>
  INSERT INTO accounts: the primary key, \<^verbatim>\<open>unique_owner_currency\<close> and
  \<^verbatim>\<open>positive_balance CHECK (balance >= 0)\<close>.
\<close>

definition sqlInsertAccount :: "Account \<Rightarrow> World \<Rightarrow> string + World" where
  "sqlInsertAccount a w =
     (if accId a \<in> set (map accId (accounts w)) then Inl ''accounts_pkey''
      else if list_ex (\<lambda>r. ownerId r = ownerId a \<and> accCurrency r = accCurrency a) (accounts w)
        then Inl ''unique_owner_currency''
      else if balance a < 0 then Inl ''positive_balance''
      else Inr (w\<lparr>accounts := accounts w @ [a]\<rparr>))"

text \<open>
  UPDATE accounts SET balance = balance + $1, updated_at = $2 WHERE owner_id = $3 AND
  currency = $4 (the debit passes the negated amount). The statement fails as a whole when
  an updated row would violate \<^verbatim>\<open>positive_balance\<close> or would not fit the balance
  column. On rows that satisfy the table's constraints a debit can fail in the first way
  only and a credit in the second way only.
\<close>

definition sqlUpdateBalance :: "string \<Rightarrow> Currency \<Rightarrow> int \<Rightarrow> nat \<Rightarrow> World \<Rightarrow> string + World" where
  "sqlUpdateBalance owner cur delta t w =
     (if list_ex (\<lambda>r. ownerId r = owner \<and> accCurrency r = cur \<and> balance r + delta < 0) (accounts w)
      then Inl ''positive_balance''
      else if list_ex (\<lambda>r. ownerId r = owner \<and> accCurrency r = cur
                            \<and> \<not> fitsColumn (balance r + delta)) (accounts w)
      then Inl ''numeric field overflow''
      else Inr (w\<lparr>accounts :=
             map (\<lambda>r. if ownerId r = owner \<and> accCurrency r = cur
                       then r\<lparr>balance := balance r + delta, accUpdatedAt := t\<rparr> else r)
                 (accounts w)\<rparr>))"

definition statement :: "(World \<Rightarrow> string + World) \<Rightarrow> unit Async" where
  "statement q w = (case q w of Inl e \<Rightarrow> (Inl e, w) | Inr w' \<Rightarrow> (Inr (), w'))"

section \<open>LedgerManager\<close>

record CreateTransactionData =
  dPayerId :: string
  dPayeeId :: string
  dAmount :: int
  dCurrency :: Currency
  dStatus :: TransactionStatus
  dPaymentMethod :: "PaymentMethod option"
  dMetadata :: TransactionMetadata

text \<open>The object that createTransaction builds, inserts and returns.\<close>

definition newTransaction :: "nat \<Rightarrow> Outside \<Rightarrow> CreateTransactionData \<Rightarrow> Transaction" where
  "newTransaction i out d =
     \<lparr> txId = i, payerId = dPayerId d, payeeId = dPayeeId d, amount = dAmount d,
       currency = dCurrency d, status = dStatus d, paymentMethod = dPaymentMethod d,
       processorReference = None, metadata = dMetadata d, createdAt = now out,
       updatedAt = now out, completedAt = None \<rparr>"

definition createTransaction :: "Outside \<Rightarrow> CreateTransactionData \<Rightarrow> Transaction Async" where
  "createTransaction out d w =
     (let transaction = newTransaction (generateId w) out d
      in andThen (statement (sqlInsertTransaction transaction)) (\<lambda>_. resolve transaction) w)"

text \<open>SELECT * FROM transactions WHERE id = $1; the first row of the result.\<close>

definition getTransaction :: "nat \<Rightarrow> World \<Rightarrow> Transaction option" where
  "getTransaction i w =
     (case filter (\<lambda>row. txId row = i) (transactions w) of [] \<Rightarrow> None | row # _ \<Rightarrow> Some row)"

text \<open>SELECT * FROM transactions WHERE metadata->>'idempotencyKey' = $1; the first row.\<close>

definition findByIdempotencyKey :: "string \<Rightarrow> World \<Rightarrow> Transaction option" where
  "findByIdempotencyKey key w =
     (case filter (\<lambda>row. idempotencyKey (metadata row) = Some key) (transactions w) of
        [] \<Rightarrow> None | row # _ \<Rightarrow> Some row)"

text \<open>
  \<^verbatim>\<open>Partial<Transaction>\<close> as the service uses it: a key that is present overrides, also
  when its value is undefined.
\<close>

record TransactionUpdates =
  uStatus :: "TransactionStatus option"
  uProcessorReference :: "string option option"
  uCompletedAt :: "nat option"

definition applyUpdates :: "Transaction \<Rightarrow> TransactionUpdates \<Rightarrow> Transaction" where
  "applyUpdates t u =
     t\<lparr>status := (case uStatus u of None \<Rightarrow> status t | Some s \<Rightarrow> s),
       processorReference :=
         (case uProcessorReference u of None \<Rightarrow> processorReference t | Some r \<Rightarrow> r),
       completedAt := (case uCompletedAt u of None \<Rightarrow> completedAt t | Some c \<Rightarrow> Some c)\<rparr>"

definition updateTransaction :: "Outside \<Rightarrow> nat \<Rightarrow> TransactionUpdates \<Rightarrow> Transaction Async" where
  "updateTransaction out i u w =
     (case getTransaction i w of
        None \<Rightarrow> throw ''Transaction not found'' w
      | Some transaction \<Rightarrow>
          (let updated = (applyUpdates transaction u)\<lparr>updatedAt := now out\<rparr>
           in (Inr updated, sqlUpdateTransaction i updated w)))"

definition updateTransactionStatus :: "Outside \<Rightarrow> nat \<Rightarrow> TransactionStatus \<Rightarrow> Transaction Async" where
  "updateTransactionStatus out i s =
     updateTransaction out i
       \<lparr> uStatus = Some s, uProcessorReference = None,
         uCompletedAt = (if s = completed then Some (now out) else None) \<rparr>"

definition ensureAccount :: "Outside \<Rightarrow> string \<Rightarrow> Currency \<Rightarrow> unit Async" where
  "ensureAccount out owner cur w =
     (if owner = SELF_ENTITY then resolve () w
      else (case filter (\<lambda>r. ownerId r = owner \<and> accCurrency r = cur) (accounts w) of
              [] \<Rightarrow> statement (sqlInsertAccount
                       \<lparr> accId = generateId w, ownerId = owner, accType = user, balance = 0,
                         accCurrency = cur, accStatus = active, accCreatedAt = now out,
                         accUpdatedAt = now out \<rparr>) w
            | _ # _ \<Rightarrow> resolve () w))"

definition updateBalances :: "Outside \<Rightarrow> string \<Rightarrow> string \<Rightarrow> int \<Rightarrow> Currency \<Rightarrow> unit Async" where
  "updateBalances out payer payee amt cur =
     andThen (ensureAccount out payer cur) (\<lambda>_.
     andThen (ensureAccount out payee cur) (\<lambda>_.
     andThen (if payer \<noteq> SELF_ENTITY
              then statement (sqlUpdateBalance payer cur (- amt) (now out)) else resolve ()) (\<lambda>_.
     (if payee \<noteq> SELF_ENTITY
      then statement (sqlUpdateBalance payee cur amt (now out)) else resolve ()))))"

section \<open>PaymentProcessor\<close>

record ProcessorResult =
  success :: bool
  reference :: "string option"
  error :: "string option"

definition succeeded :: "string \<Rightarrow> ProcessorResult" where
  "succeeded r = \<lparr> success = True, reference = Some r, error = None \<rparr>"

definition declined :: "string \<Rightarrow> ProcessorResult" where
  "declined e = \<lparr> success = False, reference = None, error = Some e \<rparr>"

text \<open>
  \<^verbatim>\<open>processPayment\<close>. The three real providers answer in test mode only and throw
  otherwise. The method returns the provider's promise from inside its try block without
  awaiting it, so its catch block never sees that throw: the call of processPayment itself
  throws, with the provider's message. The mock provider returns a failure when the random
  draw is below 0.05; that is the only failure the method returns.
\<close>

definition processPayment :: "PaymentProcessorConfig \<Rightarrow> Outside \<Rightarrow> string + ProcessorResult" where
  "processPayment pc out =
     (case provider pc of
        provider_stripe \<Rightarrow>
          (if testMode pc then Inr (succeeded (''stripe_'' @ stamp out))
           else Inl ''Stripe integration not yet implemented'')
      | provider_paypal \<Rightarrow>
          (if testMode pc then Inr (succeeded (''paypal_'' @ stamp out))
           else Inl ''PayPal integration not yet implemented'')
      | provider_square \<Rightarrow>
          (if testMode pc then Inr (succeeded (''square_'' @ stamp out))
           else Inl ''Square integration not yet implemented'')
      | provider_mock \<Rightarrow>
          (if rnd out < 5 / 100 then Inr (declined ''Mock payment failed (random failure)'')
           else Inr (succeeded (''mock_'' @ stamp out))))"

text \<open>
  \<^verbatim>\<open>PaymentProcessor.processRefund\<close>, written in the same way: outside test mode the
  call throws, and no provider returns a failure. A success carries no reference.
\<close>

definition processorRefund :: "PaymentProcessorConfig \<Rightarrow> string + ProcessorResult" where
  "processorRefund pc =
     (case provider pc of
        provider_stripe \<Rightarrow>
          (if testMode pc then Inr \<lparr> success = True, reference = None, error = None \<rparr>
           else Inl ''Stripe refund not yet implemented'')
      | provider_paypal \<Rightarrow>
          (if testMode pc then Inr \<lparr> success = True, reference = None, error = None \<rparr>
           else Inl ''PayPal refund not yet implemented'')
      | provider_square \<Rightarrow>
          (if testMode pc then Inr \<lparr> success = True, reference = None, error = None \<rparr>
           else Inl ''Square refund not yet implemented'')
      | provider_mock \<Rightarrow> Inr \<lparr> success = True, reference = None, error = None \<rparr>)"

text \<open>
  A call of the processor is recorded in the world's log; it returns the processor's
  result or throws as the processor does.
\<close>

definition callProcessPayment ::
  "PaymentProcessorConfig \<Rightarrow> Outside \<Rightarrow> int \<Rightarrow> Currency \<Rightarrow> PaymentMethod \<Rightarrow> nat \<Rightarrow> string \<Rightarrow> string
     \<Rightarrow> ProcessorResult Async" where
  "callProcessPayment pc out amt cur method i payer payee w =
     (processPayment pc out,
      w\<lparr>processorLog := processorLog w @ [Charge amt cur method i payer payee]\<rparr>)"

definition callProcessRefund ::
  "PaymentProcessorConfig \<Rightarrow> string \<Rightarrow> int \<Rightarrow> Currency \<Rightarrow> ProcessorResult Async" where
  "callProcessRefund pc ref amt cur w =
     (processorRefund pc, w\<lparr>processorLog := processorLog w @ [Refund ref amt cur]\<rparr>)"

section \<open>PaymentService\<close>

text \<open>
  \<^verbatim>\<open>BaseService.emit\<close> hands the event to the event bus under the name
  \<^verbatim>\<open>service:payment:<event>\<close>.
\<close>

definition emit :: "string \<Rightarrow> Transaction \<Rightarrow> unit Async" where
  "emit event data w = (Inr (), w\<lparr>events := events w @ [(''service:payment:'' @ event, data)]\<rparr>)"

text \<open>
  \<^verbatim>\<open>validateTransaction\<close>. A configured bound is tested for truth first, so a bound of 0
  counts as not configured; an identifier is missing when it is the empty string. The two
  messages about the bounds end with the bound's value in the source; the model's text
  stops before it.
\<close>

definition validateTransaction :: "PaymentServiceConfig \<Rightarrow> ProcessTransactionRequest \<Rightarrow> string + unit" where
  "validateTransaction cfg request =
     (if rqAmount request \<le> 0 then Inl ''Transaction amount must be positive''
      else if (case minTransactionAmount cfg of
                 None \<Rightarrow> False | Some m \<Rightarrow> m \<noteq> 0 \<and> rqAmount request < m)
        then Inl ''Transaction amount below minimum''
      else if (case maxTransactionAmount cfg of
                 None \<Rightarrow> False | Some m \<Rightarrow> m \<noteq> 0 \<and> rqAmount request > m)
        then Inl ''Transaction amount exceeds maximum''
      else if rqPayerId request = rqPayeeId request then Inl ''Payer and payee cannot be the same''
      else if rqPayerId request = [] \<or> rqPayeeId request = []
        then Inl ''Payer and payee are required''
      else Inr ())"

definition requiresPaymentProcessing :: "string \<Rightarrow> string \<Rightarrow> bool" where
  "requiresPaymentProcessing payer payee =
     (if payer = SELF_ENTITY then False
      else if payee = SELF_ENTITY then True
      else True)"

text \<open>\<^verbatim>\<open>result.error || 'Payment processing failed'\<close>: an absent or empty text gives the default.\<close>

definition orDefault :: "string option \<Rightarrow> string \<Rightarrow> string" where
  "orDefault e d = (case e of None \<Rightarrow> d | Some m \<Rightarrow> if m = [] then d else m)"

text \<open>The statements of processTransaction after the processor block (source lines 123 to 135).\<close>

definition settle :: "Outside \<Rightarrow> Transaction \<Rightarrow> ProcessTransactionRequest \<Rightarrow> TransactionResult Async" where
  "settle out transaction request =
     andThen (updateBalances out (rqPayerId request) (rqPayeeId request) (rqAmount request)
                (currency transaction)) (\<lambda>_.
     andThen (updateTransactionStatus out (txId transaction) completed) (\<lambda>completedTransaction.
     andThen (emit ''transaction:completed'' completedTransaction) (\<lambda>_.
     resolve (Success completedTransaction))))"

text \<open>
  The try block of processTransaction from the creation of the pending row on (source
  lines 72 to 135).
\<close>

definition pendingData :: "PaymentServiceConfig \<Rightarrow> ProcessTransactionRequest \<Rightarrow> CreateTransactionData" where
  "pendingData cfg request =
     \<lparr> dPayerId = rqPayerId request, dPayeeId = rqPayeeId request, dAmount = rqAmount request,
       dCurrency = (case rqCurrency request of None \<Rightarrow> defaultCurrency cfg | Some c \<Rightarrow> c),
       dStatus = pending, dPaymentMethod = rqPaymentMethod request,
       dMetadata = (rqMetadata request)\<lparr>idempotencyKey := rqIdempotencyKey request\<rparr> \<rparr>"

definition processNew ::
  "PaymentServiceConfig \<Rightarrow> Outside \<Rightarrow> ProcessTransactionRequest \<Rightarrow> TransactionResult Async" where
  "processNew cfg out request =
     andThen (createTransaction out (pendingData cfg request))
     (\<lambda>transaction.
        (case (if requiresPaymentProcessing (rqPayerId request) (rqPayeeId request)
               then rqPaymentMethod request else None) of
           Some method \<Rightarrow>
             andThen (updateTransactionStatus out (txId transaction) processing) (\<lambda>_.
             andThen (callProcessPayment (processor cfg) out (rqAmount request)
                        (currency transaction) method (txId transaction)
                        (rqPayerId request) (rqPayeeId request)) (\<lambda>result.
               if \<not> success result
               then andThen (updateTransactionStatus out (txId transaction) failed) (\<lambda>_.
                    resolve (Failure ''PAYMENT_FAILED''
                               (orDefault (error result) ''Payment processing failed'')))
               else andThen (updateTransaction out (txId transaction)
                               \<lparr> uStatus = None,
                                 uProcessorReference = Some (reference result),
                                 uCompletedAt = None \<rparr>) (\<lambda>_.
                    settle out transaction request)))
         | None \<Rightarrow> settle out transaction request))"

text \<open>
  The idempotency check (source lines 64 to 70): a key is looked up only when it is a
  non-empty string.
\<close>

definition existingFor :: "ProcessTransactionRequest \<Rightarrow> World \<Rightarrow> Transaction option" where
  "existingFor request w =
     (case rqIdempotencyKey request of
        None \<Rightarrow> None
      | Some key \<Rightarrow> if key = [] then None else findByIdempotencyKey key w)"

text \<open>The try block of processTransaction: validation, the idempotency check, the rest.\<close>

definition processTransactionTry ::
  "PaymentServiceConfig \<Rightarrow> Outside \<Rightarrow> ProcessTransactionRequest \<Rightarrow> TransactionResult Async" where
  "processTransactionTry cfg out request w =
     (case validateTransaction cfg request of
        Inl e \<Rightarrow> throw e w
      | Inr _ \<Rightarrow>
         (case existingFor request w of
            Some existing \<Rightarrow> resolve (Success existing) w
          | None \<Rightarrow> processNew cfg out request w))"

text \<open>
  processTransaction: the catch block turns any throw into a \<^verbatim>\<open>TRANSACTION_ERROR\<close> result
  and touches nothing.
\<close>

definition processTransaction ::
  "PaymentServiceConfig \<Rightarrow> Outside \<Rightarrow> ProcessTransactionRequest \<Rightarrow> World
     \<Rightarrow> TransactionResult \<times> World" where
  "processTransaction cfg out request w =
     (case processTransactionTry cfg out request w of
        (Inl e, w') \<Rightarrow> (Failure ''TRANSACTION_ERROR'' e, w')
      | (Inr r, w') \<Rightarrow> (r, w'))"

text \<open>
  \<^verbatim>\<open>amount || originalTx.amount\<close>: the original's amount when the request gives none or
  gives 0.
\<close>

definition refundAmountOf :: "RefundRequest \<Rightarrow> Transaction \<Rightarrow> int" where
  "refundAmountOf request originalTx =
     (case rfAmount request of
        None \<Rightarrow> amount originalTx
      | Some a \<Rightarrow> if a = 0 then amount originalTx else a)"

text \<open>
  The processor block of processRefund (source lines 203 to 221): \<open>Some\<close> of a result is
  the early return.
\<close>

definition refundAtProcessor ::
  "PaymentServiceConfig \<Rightarrow> Outside \<Rightarrow> Transaction \<Rightarrow> Transaction \<Rightarrow> int
     \<Rightarrow> TransactionResult option Async" where
  "refundAtProcessor cfg out originalTx refundTransaction refundAmount =
     (case processorReference originalTx of
        None \<Rightarrow> resolve None
      | Some ref \<Rightarrow>
          if ref = [] then resolve None
          else andThen (callProcessRefund (processor cfg) ref refundAmount
                          (currency originalTx)) (\<lambda>result.
                 if \<not> success result
                 then andThen (updateTransactionStatus out (txId refundTransaction) failed) (\<lambda>_.
                      resolve (Some (Failure ''REFUND_FAILED''
                                       (orDefault (error result) ''Refund processing failed''))))
                 else resolve None))"

text \<open>
  The try block of processRefund from the creation of the refund row on (source lines 187
  to 242). The description of the refund ends with the original's identifier in the
  source; the model's text stops before it.
\<close>

definition refundData :: "RefundRequest \<Rightarrow> Transaction \<Rightarrow> CreateTransactionData" where
  "refundData request originalTx =
     \<lparr> dPayerId = payeeId originalTx, dPayeeId = payerId originalTx,
       dAmount = refundAmountOf request originalTx, dCurrency = currency originalTx,
       dStatus = processing, dPaymentMethod = None,
       dMetadata = emptyMetadata
         \<lparr> description := Some ''Refund for transaction'', reason := rfReason request,
           originalTransactionId := Some (transactionId request) \<rparr> \<rparr>"

definition refundNew ::
  "PaymentServiceConfig \<Rightarrow> Outside \<Rightarrow> RefundRequest \<Rightarrow> Transaction \<Rightarrow> TransactionResult Async" where
  "refundNew cfg out request originalTx =
     (let refundAmount = refundAmountOf request originalTx
      in andThen (createTransaction out (refundData request originalTx))
         (\<lambda>refundTransaction.
            andThen (refundAtProcessor cfg out originalTx refundTransaction refundAmount)
              (\<lambda>returned.
                 case returned of
                   Some r \<Rightarrow> resolve r
                 | None \<Rightarrow>
                     andThen (updateBalances out (payerId refundTransaction)
                                (payeeId refundTransaction) refundAmount
                                (currency originalTx)) (\<lambda>_.
                     andThen (updateTransactionStatus out (txId originalTx) refunded) (\<lambda>_.
                     andThen (updateTransactionStatus out (txId refundTransaction)
                                completed) (\<lambda>completedRefund.
                     andThen (emit ''refund:completed'' completedRefund) (\<lambda>_.
                     resolve (Success completedRefund))))))))"

text \<open>The try block of processRefund: the three checks, then the rest.\<close>

definition processRefundTry ::
  "PaymentServiceConfig \<Rightarrow> Outside \<Rightarrow> RefundRequest \<Rightarrow> TransactionResult Async" where
  "processRefundTry cfg out request w =
     (if \<not> refundsEnabled cfg
      then resolve (Failure ''REFUNDS_DISABLED'' ''Refunds are not enabled'') w
      else
       (case getTransaction (transactionId request) w of
          None \<Rightarrow> resolve (Failure ''TRANSACTION_NOT_FOUND'' ''Original transaction not found'') w
        | Some originalTx \<Rightarrow>
           (if status originalTx \<noteq> completed
            then resolve (Failure ''INVALID_TRANSACTION_STATUS''
                            ''Can only refund completed transactions'') w
            else refundNew cfg out request originalTx w)))"

definition processRefund ::
  "PaymentServiceConfig \<Rightarrow> Outside \<Rightarrow> RefundRequest \<Rightarrow> World \<Rightarrow> TransactionResult \<times> World" where
  "processRefund cfg out request w =
     (case processRefundTry cfg out request w of
        (Inl e, w') \<Rightarrow> (Failure ''REFUND_ERROR'' e, w')
      | (Inr r, w') \<Rightarrow> (r, w'))"

section \<open>Observations used to state the properties\<close>

text \<open>
  The balance of an owner in a currency: the balance column of the owner's row in that
  currency (the row that the UPDATE statements of updateBalances address), and 0, the
  balance that ensureAccount gives a new row, when the owner has no row yet.
\<close>

definition balanceOf :: "World \<Rightarrow> string \<Rightarrow> Currency \<Rightarrow> int" where
  "balanceOf w owner cur =
     (case filter (\<lambda>r. ownerId r = owner \<and> accCurrency r = cur) (accounts w) of
        [] \<Rightarrow> 0 | r # _ \<Rightarrow> balance r)"

text \<open>The store's invariant \<^verbatim>\<open>positive_balance\<close>: no row of accounts has a negative balance.\<close>

definition nonNegative :: "World \<Rightarrow> bool" where
  "nonNegative w = list_all (\<lambda>r. 0 \<le> balance r) (accounts w)"

text \<open>A sequence of calls of the service, each with what it reads from outside.\<close>

datatype Call = Transfer ProcessTransactionRequest | RefundOf RefundRequest

fun runCalls :: "PaymentServiceConfig \<Rightarrow> (Outside \<times> Call) list \<Rightarrow> World \<Rightarrow> World" where
  "runCalls cfg [] w = w"
| "runCalls cfg ((out, Transfer request) # cs) w =
     runCalls cfg cs (snd (processTransaction cfg out request w))"
| "runCalls cfg ((out, RefundOf request) # cs) w =
     runCalls cfg cs (snd (processRefund cfg out request w))"

section \<open>Concrete configurations, ledgers and requests\<close>

text \<open>
  A processor that always succeeds (a real provider in test mode), one whose every call
  fails (the same provider outside test mode), and the mock provider, which declines a
  charge when the draw is below 0.05.
\<close>

definition alwaysSucceeds :: PaymentServiceConfig where
  "alwaysSucceeds =
     \<lparr> processor = \<lparr> provider = provider_stripe, apiKey = ''test'', testMode = True \<rparr>,
       defaultCurrency = USD, minTransactionAmount = None, maxTransactionAmount = None,
       refundsEnabled = True \<rparr>"

definition alwaysFails :: PaymentServiceConfig where
  "alwaysFails =
     \<lparr> processor = \<lparr> provider = provider_stripe, apiKey = ''live'', testMode = False \<rparr>,
       defaultCurrency = USD, minTransactionAmount = None, maxTransactionAmount = None,
       refundsEnabled = True \<rparr>"

definition mockProvider :: PaymentServiceConfig where
  "mockProvider =
     \<lparr> processor = \<lparr> provider = provider_mock, apiKey = ''test'', testMode = True \<rparr>,
       defaultCurrency = USD, minTransactionAmount = None, maxTransactionAmount = None,
       refundsEnabled = True \<rparr>"

definition outside0 :: Outside where
  "outside0 = \<lparr> now = 1000, rnd = 1 / 2, stamp = ''1000_abc'' \<rparr>"

definition lowDraw :: Outside where
  "lowDraw = \<lparr> now = 1000, rnd = 1 / 100, stamp = ''1000_abc'' \<rparr>"

text \<open>A configuration whose maximum amount is 0.\<close>

definition zeroMaximum :: PaymentServiceConfig where
  "zeroMaximum = alwaysSucceeds\<lparr>maxTransactionAmount := Some 0\<rparr>"

definition userAccount :: "nat \<Rightarrow> string \<Rightarrow> int \<Rightarrow> Account" where
  "userAccount i owner b =
     \<lparr> accId = i, ownerId = owner, accType = user, balance = b, accCurrency = USD,
       accStatus = active, accCreatedAt = 0, accUpdatedAt = 0 \<rparr>"

definition ledgerWith :: "Account list \<Rightarrow> World" where
  "ledgerWith rows = \<lparr> accounts = rows, transactions = [], processorLog = [], events = [] \<rparr>"

definition transfer :: "string \<Rightarrow> string \<Rightarrow> int \<Rightarrow> ProcessTransactionRequest" where
  "transfer payer payee amt =
     \<lparr> rqPayerId = payer, rqPayeeId = payee, rqAmount = amt, rqCurrency = Some USD,
       rqPaymentMethod = None, rqMetadata = emptyMetadata, rqIdempotencyKey = None \<rparr>"

definition ledgerUser1 :: World where
  "ledgerUser1 = ledgerWith [userAccount 1 ''user_1'' 0]"

text \<open>
  A card payment of 10.00 to the platform under the idempotency key k1, the row it leaves
  when the processor declines, and the ledger holding that row.
\<close>

definition keyedCharge :: ProcessTransactionRequest where
  "keyedCharge = (transfer ''user_1'' SELF_ENTITY 100000)
     \<lparr>rqPaymentMethod := Some credit_card, rqIdempotencyKey := Some ''k1''\<rparr>"

definition declinedRow :: Transaction where
  "declinedRow =
     \<lparr> txId = 2, payerId = ''user_1'', payeeId = SELF_ENTITY, amount = 100000, currency = USD,
       status = failed, paymentMethod = Some credit_card, processorReference = None,
       metadata = emptyMetadata\<lparr>idempotencyKey := Some ''k1''\<rparr>,
       createdAt = 1000, updatedAt = 1000, completedAt = None \<rparr>"

definition ledgerDeclined :: World where
  "ledgerDeclined = ledgerUser1
     \<lparr>transactions := [declinedRow],
      processorLog := [Charge 100000 USD credit_card 2 ''user_1'' SELF_ENTITY]\<rparr>"

definition keyedTransfer :: ProcessTransactionRequest where
  "keyedTransfer = (transfer ''user_2'' ''user_3'' 50000)\<lparr>rqIdempotencyKey := Some ''k2''\<rparr>"

definition ledgerUser2 :: World where
  "ledgerUser2 = ledgerWith [userAccount 1 ''user_2'' 100000]"

definition cardTopUp :: ProcessTransactionRequest where
  "cardTopUp = (transfer ''user_2'' SELF_ENTITY 50000)\<lparr>rqPaymentMethod := Some credit_card\<rparr>"

text \<open>
  The ledger in which user_2 holds 10.00, and a transfer of 25.00 from user_2 to user_3,
  without and with a card.
\<close>

definition overdraft :: ProcessTransactionRequest where
  "overdraft = transfer ''user_2'' ''user_3'' 250000"

definition overdraftByCard :: ProcessTransactionRequest where
  "overdraftByCard = overdraft\<lparr>rqPaymentMethod := Some credit_card\<rparr>"

text \<open>user_1, whose balance is 0, pays 49.99 to the platform by card.\<close>

definition selfPayment :: ProcessTransactionRequest where
  "selfPayment = (transfer ''user_1'' SELF_ENTITY 499900)\<lparr>rqPaymentMethod := Some credit_card\<rparr>"

text \<open>The test of the README: the mock provider, a new user paying 10.00 to the platform.\<close>

definition readmeConfig :: PaymentServiceConfig where
  "readmeConfig =
     \<lparr> processor = \<lparr> provider = provider_mock, apiKey = ''test'', testMode = True \<rparr>,
       defaultCurrency = USD, minTransactionAmount = None, maxTransactionAmount = None,
       refundsEnabled = False \<rparr>"

definition readmeRequest :: ProcessTransactionRequest where
  "readmeRequest = transfer ''test_user'' SELF_ENTITY 100000"

text \<open>
  A completed card payment of 10.00 from user_2 to the platform, the ledger that holds it,
  and the request to refund it in full.
\<close>

definition paidRow :: Transaction where
  "paidRow =
     \<lparr> txId = 2, payerId = ''user_2'', payeeId = SELF_ENTITY, amount = 100000, currency = USD,
       status = completed, paymentMethod = Some credit_card,
       processorReference = Some ''stripe_900_xyz'', metadata = emptyMetadata,
       createdAt = 900, updatedAt = 900, completedAt = Some 900 \<rparr>"

definition ledgerPaid :: World where
  "ledgerPaid = (ledgerWith [userAccount 1 ''user_2'' 0])\<lparr>transactions := [paidRow]\<rparr>"

definition refundOfPaid :: RefundRequest where
  "refundOfPaid = \<lparr> transactionId = 2, rfAmount = None, rfReason = Some ''changed mind'' \<rparr>"

text \<open>A refund of 25.00 of that payment of 10.00, and the refund row it produces.\<close>

definition excessRefund :: RefundRequest where
  "excessRefund = \<lparr> transactionId = 2, rfAmount = Some 250000, rfReason = None \<rparr>"

definition excessRefundRow :: Transaction where
  "excessRefundRow =
     \<lparr> txId = 3, payerId = SELF_ENTITY, payeeId = ''user_2'', amount = 250000, currency = USD,
       status = completed, paymentMethod = None, processorReference = None,
       metadata = emptyMetadata\<lparr>description := Some ''Refund for transaction'',
                   originalTransactionId := Some 2\<rparr>,
       createdAt = 1000, updatedAt = 1000, completedAt = Some 1000 \<rparr>"

text \<open>
  user_2 pays 5.00 to user_3 and is refunded in full at time 2000: the two requests, and
  the two rows that the transactions table holds afterwards.
\<close>

definition smallTransfer :: ProcessTransactionRequest where
  "smallTransfer = transfer ''user_2'' ''user_3'' 50000"

definition refundOfTransfer :: RefundRequest where
  "refundOfTransfer = \<lparr> transactionId = 2, rfAmount = None, rfReason = None \<rparr>"

definition refundedTransferRow :: Transaction where
  "refundedTransferRow =
     \<lparr> txId = 2, payerId = ''user_2'', payeeId = ''user_3'', amount = 50000, currency = USD,
       status = refunded, paymentMethod = None, processorReference = None,
       metadata = emptyMetadata, createdAt = 1000, updatedAt = 2000, completedAt = Some 1000 \<rparr>"

definition transferRefundRow :: Transaction where
  "transferRefundRow =
     \<lparr> txId = 4, payerId = ''user_3'', payeeId = ''user_2'', amount = 50000, currency = USD,
       status = completed, paymentMethod = None, processorReference = None,
       metadata = emptyMetadata\<lparr>description := Some ''Refund for transaction'',
                   originalTransactionId := Some 2\<rparr>,
       createdAt = 2000, updatedAt = 2000, completedAt = Some 2000 \<rparr>"

text \<open>The owner has a row in the currency.\<close>

definition hasAccount :: "World \<Rightarrow> string \<Rightarrow> Currency \<Rightarrow> bool" where
  "hasAccount w owner cur = list_ex (\<lambda>r. ownerId r = owner \<and> accCurrency r = cur) (accounts w)"

text \<open>An operation keeps a property of the world, whether it returns or throws.\<close>

definition preserves :: "(World \<Rightarrow> bool) \<Rightarrow> 'a Async \<Rightarrow> bool" where
  "preserves P m = (\<forall>w r w'. P w \<longrightarrow> m w = (r, w') \<longrightarrow> P w')"

section \<open>Reasoning about operations\<close>

lemma foldr_max_ge: "x \<in> set xs \<Longrightarrow> x \<le> foldr max xs (0::nat)"
  by (induction xs) (auto simp: max_def)

lemma generateId_fresh_tx: "generateId w \<notin> txId ` set (transactions w)"
proof
  assume "generateId w \<in> txId ` set (transactions w)"
  then have "generateId w \<in> set (map txId (transactions w) @ map accId (accounts w))" by auto
  from foldr_max_ge[OF this] show False by (simp add: generateId_def)
qed

lemma generateId_fresh_acc: "generateId w \<notin> accId ` set (accounts w)"
proof
  assume "generateId w \<in> accId ` set (accounts w)"
  then have "generateId w \<in> set (map txId (transactions w) @ map accId (accounts w))" by auto
  from foldr_max_ge[OF this] show False by (simp add: generateId_def)
qed

lemma preservesI: "(\<And>w r w'. P w \<Longrightarrow> m w = (r, w') \<Longrightarrow> P w') \<Longrightarrow> preserves P m"
  unfolding preserves_def by blast

lemma preservesD: "preserves P m \<Longrightarrow> P w \<Longrightarrow> m w = (r, w') \<Longrightarrow> P w'"
  unfolding preserves_def by blast

lemma preserves_resolve: "preserves P (resolve x)"
  by (rule preservesI) (simp add: resolve_def)

lemma preserves_throw: "preserves P (throw e)"
  by (rule preservesI) (simp add: throw_def)

lemma preserves_andThen:
  assumes m: "preserves P m" and f: "\<And>x. preserves P (f x)"
  shows "preserves P (andThen m f)"
proof (rule preservesI)
  fix w r w'
  assume P: "P w" and run: "andThen m f w = (r, w')"
  obtain r1 w1 where m1: "m w = (r1, w1)" by (cases "m w")
  from preservesD[OF m P m1] have P1: "P w1" .
  show "P w'"
  proof (cases r1)
    case (Inl e)
    with run m1 have "w' = w1" by (simp add: andThen_def)
    with P1 show ?thesis by simp
  next
    case (Inr x)
    with run m1 have "f x w1 = (r, w')" by (simp add: andThen_def)
    from preservesD[OF f P1 this] show ?thesis .
  qed
qed

lemma preserves_statement:
  assumes "\<And>w w'. P w \<Longrightarrow> q w = Inr w' \<Longrightarrow> P w'"
  shows "preserves P (statement q)"
proof (rule preservesI)
  fix w r w'
  assume P: "P w" and run: "statement q w = (r, w')"
  show "P w'"
  proof (cases "q w")
    case (Inl e)
    with run P show ?thesis by (simp add: statement_def)
  next
    case (Inr w1)
    with run have "w' = w1" by (simp add: statement_def)
    with assms[OF P Inr] show ?thesis by simp
  qed
qed

lemma preserves_if:
  "(c \<Longrightarrow> preserves P m) \<Longrightarrow> (\<not> c \<Longrightarrow> preserves P n) \<Longrightarrow> preserves P (if c then m else n)"
  by (cases c) simp_all

lemma preserves_case_option:
  "preserves P n \<Longrightarrow> (\<And>x. preserves P (s x))
     \<Longrightarrow> preserves P (case v of None \<Rightarrow> n | Some x \<Rightarrow> s x)"
  by (cases v) simp_all

lemmas preserves_intros =
  preserves_andThen preserves_resolve preserves_throw preserves_if preserves_case_option

text \<open>
  A property of the world that the five writers keep is kept by both service methods.
\<close>

lemma updateTransactionStatus_preserves:
  "(\<And>i u. preserves P (updateTransaction out i u))
     \<Longrightarrow> preserves P (updateTransactionStatus out i s)"
  by (simp add: updateTransactionStatus_def)

lemma settle_preserves:
  assumes "\<And>i u. preserves P (updateTransaction out i u)"
    and "\<And>p q a c. preserves P (updateBalances out p q a c)"
    and "\<And>e d. preserves P (emit e d)"
  shows "preserves P (settle out t request)"
  unfolding settle_def
  by (intro preserves_intros updateTransactionStatus_preserves assms)

lemma processNew_preserves:
  assumes "\<And>d. preserves P (createTransaction out d)"
    and "\<And>i u. preserves P (updateTransaction out i u)"
    and "\<And>p q a c. preserves P (updateBalances out p q a c)"
    and "\<And>pc a c m i p q. preserves P (callProcessPayment pc out a c m i p q)"
    and "\<And>e d. preserves P (emit e d)"
  shows "preserves P (processNew cfg out request)"
  unfolding processNew_def
  by (intro preserves_intros updateTransactionStatus_preserves settle_preserves assms)

lemma processTransactionTry_preserves:
  assumes "\<And>d. preserves P (createTransaction out d)"
    and "\<And>i u. preserves P (updateTransaction out i u)"
    and "\<And>p q a c. preserves P (updateBalances out p q a c)"
    and "\<And>pc a c m i p q. preserves P (callProcessPayment pc out a c m i p q)"
    and "\<And>e d. preserves P (emit e d)"
  shows "preserves P (processTransactionTry cfg out request)"
proof (rule preservesI)
  fix w r w'
  assume P: "P w" and run: "processTransactionTry cfg out request w = (r, w')"
  note new = processNew_preserves[of P out cfg request, OF assms]
  show "P w'"
  proof (cases "validateTransaction cfg request")
    case (Inl e)
    with run P show ?thesis by (simp add: processTransactionTry_def throw_def)
  next
    case valid: (Inr u)
    show ?thesis
    proof (cases "existingFor request w")
      case (Some existing)
      with run valid P show ?thesis by (simp add: processTransactionTry_def resolve_def)
    next
      case None
      with run valid have "processNew cfg out request w = (r, w')"
        by (simp add: processTransactionTry_def)
      from preservesD[OF new P this] show ?thesis .
    qed
  qed
qed

lemma refundAtProcessor_preserves:
  assumes "\<And>i u. preserves P (updateTransaction out i u)"
    and "\<And>pc ref a c. preserves P (callProcessRefund pc ref a c)"
  shows "preserves P (refundAtProcessor cfg out originalTx refundTransaction a)"
  unfolding refundAtProcessor_def
  by (intro preserves_intros updateTransactionStatus_preserves assms)

lemma refundNew_preserves:
  assumes "\<And>d. preserves P (createTransaction out d)"
    and "\<And>i u. preserves P (updateTransaction out i u)"
    and "\<And>p q a c. preserves P (updateBalances out p q a c)"
    and "\<And>pc ref a c. preserves P (callProcessRefund pc ref a c)"
    and "\<And>e d. preserves P (emit e d)"
  shows "preserves P (refundNew cfg out request originalTx)"
  unfolding refundNew_def Let_def
  by (intro preserves_intros updateTransactionStatus_preserves refundAtProcessor_preserves assms)

lemma processRefundTry_preserves:
  assumes "\<And>d. preserves P (createTransaction out d)"
    and "\<And>i u. preserves P (updateTransaction out i u)"
    and "\<And>p q a c. preserves P (updateBalances out p q a c)"
    and "\<And>pc ref a c. preserves P (callProcessRefund pc ref a c)"
    and "\<And>e d. preserves P (emit e d)"
  shows "preserves P (processRefundTry cfg out request)"
proof (rule preservesI)
  fix w r w'
  assume P: "P w" and run: "processRefundTry cfg out request w = (r, w')"
  note new = refundNew_preserves[of P out cfg request, OF assms]
  show "P w'"
  proof (cases "refundsEnabled cfg")
    case False
    with run P show ?thesis by (simp add: processRefundTry_def resolve_def)
  next
    case enabled: True
    show ?thesis
    proof (cases "getTransaction (transactionId request) w")
      case None
      with run enabled P show ?thesis by (simp add: processRefundTry_def resolve_def)
    next
      case (Some originalTx)
      show ?thesis
      proof (cases "status originalTx = completed")
        case False
        with run enabled Some P show ?thesis by (simp add: processRefundTry_def resolve_def)
      next
        case True
        with run enabled Some have "refundNew cfg out request originalTx w = (r, w')"
          by (simp add: processRefundTry_def)
        from preservesD[OF new P this] show ?thesis .
      qed
    qed
  qed
qed

text \<open>Writers of the transactions table, the processor and the event bus leave accounts alone.\<close>

lemma createTransaction_accounts:
  "createTransaction out d w = (r, w') \<Longrightarrow> accounts w' = accounts w"
  by (auto simp: createTransaction_def Let_def andThen_def statement_def resolve_def
        sqlInsertTransaction_def split: if_splits)

lemma updateTransaction_accounts:
  "updateTransaction out i u w = (r, w') \<Longrightarrow> accounts w' = accounts w"
  by (auto simp: updateTransaction_def Let_def throw_def sqlUpdateTransaction_def
        split: option.splits)

lemma callProcessPayment_accounts:
  "callProcessPayment pc out a c m i p q w = (r, w') \<Longrightarrow> accounts w' = accounts w"
  by (auto simp: callProcessPayment_def)

lemma callProcessRefund_accounts:
  "callProcessRefund pc ref a c w = (r, w') \<Longrightarrow> accounts w' = accounts w"
  by (auto simp: callProcessRefund_def)

lemma emit_accounts: "emit e d w = (r, w') \<Longrightarrow> accounts w' = accounts w"
  by (auto simp: emit_def)

lemma ensureAccount_nonNegative: "preserves nonNegative (ensureAccount out owner cur)"
  by (rule preservesI)
     (auto simp: ensureAccount_def resolve_def statement_def sqlInsertAccount_def
        nonNegative_def split: if_splits list.splits)

lemma sqlUpdateBalance_nonNegative:
  assumes "nonNegative w" and "sqlUpdateBalance owner cur delta t w = Inr w'"
  shows "nonNegative w'"
proof -
  from assms(2) have ok: "\<not> list_ex (\<lambda>r. ownerId r = owner \<and> accCurrency r = cur \<and> balance r + delta < 0) (accounts w)"
    and w': "accounts w' = map (\<lambda>r. if ownerId r = owner \<and> accCurrency r = cur
                       then r\<lparr>balance := balance r + delta, accUpdatedAt := t\<rparr> else r) (accounts w)"
    by (auto simp: sqlUpdateBalance_def split: if_splits)
  show ?thesis
    unfolding nonNegative_def w' list_all_iff
  proof
    fix r assume "r \<in> set (map (\<lambda>r. if ownerId r = owner \<and> accCurrency r = cur
                       then r\<lparr>balance := balance r + delta, accUpdatedAt := t\<rparr> else r) (accounts w))"
    then obtain r0 where r0: "r0 \<in> set (accounts w)"
      and r: "r = (if ownerId r0 = owner \<and> accCurrency r0 = cur
                       then r0\<lparr>balance := balance r0 + delta, accUpdatedAt := t\<rparr> else r0)"
      by auto
    from r0 assms(1) have "0 \<le> balance r0" by (simp add: nonNegative_def list_all_iff)
    moreover from r0 ok have "ownerId r0 = owner \<and> accCurrency r0 = cur \<Longrightarrow> 0 \<le> balance r0 + delta"
      by (auto simp: list_ex_iff)
    ultimately show "0 \<le> balance r" using r by auto
  qed
qed

lemma updateBalances_nonNegative: "preserves nonNegative (updateBalances out p q a c)"
  unfolding updateBalances_def
  by (intro preserves_intros preserves_statement ensureAccount_nonNegative)
     (erule (1) sqlUpdateBalance_nonNegative)+

lemma processTransaction_snd:
  "snd (processTransaction cfg out request w) = snd (processTransactionTry cfg out request w)"
  by (simp add: processTransaction_def split: prod.split sum.split)

lemma processRefund_snd:
  "snd (processRefund cfg out request w) = snd (processRefundTry cfg out request w)"
  by (simp add: processRefund_def split: prod.split sum.split)

lemma processTransaction_nonNegative:
  assumes "nonNegative w"
  shows "nonNegative (snd (processTransaction cfg out request w))"
proof -
  have "preserves nonNegative (processTransactionTry cfg out request)"
    by (rule processTransactionTry_preserves; rule preservesI)
       (auto simp: nonNegative_def dest: createTransaction_accounts updateTransaction_accounts
          callProcessPayment_accounts emit_accounts
          preservesD[OF updateBalances_nonNegative, unfolded nonNegative_def])
  from preservesD[OF this assms, of "fst (processTransactionTry cfg out request w)" "snd (processTransactionTry cfg out request w)"]
  show ?thesis by (simp add: processTransaction_snd)
qed

lemma processRefund_nonNegative:
  assumes "nonNegative w"
  shows "nonNegative (snd (processRefund cfg out request w))"
proof -
  have "preserves nonNegative (processRefundTry cfg out request)"
    by (rule processRefundTry_preserves; rule preservesI)
       (auto simp: nonNegative_def dest: createTransaction_accounts updateTransaction_accounts
          callProcessRefund_accounts emit_accounts
          preservesD[OF updateBalances_nonNegative, unfolded nonNegative_def])
  from preservesD[OF this assms, of "fst (processRefundTry cfg out request w)" "snd (processRefundTry cfg out request w)"]
  show ?thesis by (simp add: processRefund_snd)
qed

lemma runCalls_nonNegative: "nonNegative w \<Longrightarrow> nonNegative (runCalls cfg cs w)"
proof (induction cs arbitrary: w)
  case Nil
  then show ?case by simp
next
  case (Cons c cs)
  obtain out call where c: "c = (out, call)" by (cases c)
  show ?case
  proof (cases call)
    case (Transfer request)
    with c Cons.IH[OF processTransaction_nonNegative[OF Cons.prems]] show ?thesis by simp
  next
    case (RefundOf request)
    with c Cons.IH[OF processRefund_nonNegative[OF Cons.prems]] show ?thesis by simp
  qed
qed

text \<open>Symbolic execution of the ledger's writers on the row that was just created.\<close>

lemma andThen_alt:
  "andThen m f w = (case fst (m w) of Inl e \<Rightarrow> (Inl e, snd (m w)) | Inr x \<Rightarrow> f x (snd (m w)))"
  by (cases "m w") (simp add: andThen_def split: sum.split)

lemma generateId_not_stored [simp]: "r \<in> set (transactions w) \<Longrightarrow> txId r \<noteq> generateId w"
  using generateId_fresh_tx[of w] by (metis imageI)

lemma createTransaction_eq:
  "createTransaction out d w =
     (if \<not> fitsColumn (dAmount d) then (Inl ''numeric field overflow'', w)
      else if \<not> 0 < dAmount d then (Inl ''positive_amount'', w)
      else if dPayerId d = dPayeeId d then (Inl ''different_parties'', w)
      else (Inr (newTransaction (generateId w) out d),
            w\<lparr>transactions := transactions w @ [newTransaction (generateId w) out d]\<rparr>))"
  using generateId_fresh_tx[of w]
  by (simp add: createTransaction_def Let_def andThen_def statement_def resolve_def
        sqlInsertTransaction_def newTransaction_def)

lemma filter_id_fresh: "i \<notin> txId ` set T \<Longrightarrow> filter (\<lambda>row. txId row = i) T = []"
  by (induction T) auto

lemma map_id_fresh:
  "i \<notin> txId ` set T \<Longrightarrow> map (\<lambda>row. if txId row = i then f row else row) T = T"
  by (induction T) auto

lemma getTransaction_last:
  "transactions w = T @ [t] \<Longrightarrow> txId t \<notin> txId ` set T \<Longrightarrow> getTransaction (txId t) w = Some t"
  by (simp add: getTransaction_def filter_id_fresh)

lemma updateTransaction_last:
  assumes "transactions w = T @ [t]" and "txId t \<notin> txId ` set T"
  shows "updateTransaction out (txId t) u w =
           (Inr ((applyUpdates t u)\<lparr>updatedAt := now out\<rparr>),
            w\<lparr>transactions := T @ [(applyUpdates t u)\<lparr>updatedAt := now out\<rparr>]\<rparr>)"
  using assms
  by (simp add: updateTransaction_def getTransaction_last Let_def sqlUpdateTransaction_def
        updateRows_def map_id_fresh applyUpdates_def)

lemma updateTransaction_fresh:
  "transactions w = transactions w0 @ [t] \<Longrightarrow> txId t = generateId w0 \<Longrightarrow> i = generateId w0 \<Longrightarrow>
   updateTransaction out i u w =
           (Inr ((applyUpdates t u)\<lparr>updatedAt := now out\<rparr>),
            w\<lparr>transactions := transactions w0 @ [(applyUpdates t u)\<lparr>updatedAt := now out\<rparr>]\<rparr>)"
  using updateTransaction_last[of w "transactions w0" t out u] generateId_fresh_tx[of w0]
  by simp


lemma ensureAccount_frame:
  "preserves (\<lambda>w. transactions w = T \<and> processorLog w = L \<and> events w = E)
     (ensureAccount out owner cur)"
  by (rule preservesI)
     (auto simp: ensureAccount_def resolve_def statement_def sqlInsertAccount_def
        split: if_splits list.splits)

lemma sqlUpdateBalance_frame:
  "sqlUpdateBalance owner cur delta t w = Inr w' \<Longrightarrow>
   transactions w' = transactions w \<and> processorLog w' = processorLog w \<and> events w' = events w"
  by (auto simp: sqlUpdateBalance_def split: if_splits)

lemma updateBalances_frame_preserves:
  "preserves (\<lambda>w. transactions w = T \<and> processorLog w = L \<and> events w = E)
     (updateBalances out p q a c)"
  unfolding updateBalances_def
  by (intro preserves_intros preserves_statement ensureAccount_frame)
     (auto dest: sqlUpdateBalance_frame)

lemma updateBalances_frame [simp]:
  "transactions (snd (updateBalances out p q a c w)) = transactions w"
  "processorLog (snd (updateBalances out p q a c w)) = processorLog w"
  "events (snd (updateBalances out p q a c w)) = events w"
  using preservesD[OF updateBalances_frame_preserves[of "transactions w" "processorLog w" "events w" out p q a c],
          of w "fst (updateBalances out p q a c w)" "snd (updateBalances out p q a c w)"]
  by simp_all

lemma settle_eq:
  assumes "transactions w = transactions w0 @ [r]" and "txId r = generateId w0"
    and "txId t = generateId w0"
  shows "settle out t request w =
     (case fst (updateBalances out (rqPayerId request) (rqPayeeId request) (rqAmount request)
                  (currency t) w) of
        Inl e \<Rightarrow> (Inl e, snd (updateBalances out (rqPayerId request) (rqPayeeId request)
                              (rqAmount request) (currency t) w))
      | Inr _ \<Rightarrow>
          (Inr (Success (r\<lparr>status := completed, updatedAt := now out,
                           completedAt := Some (now out)\<rparr>)),
           (snd (updateBalances out (rqPayerId request) (rqPayeeId request) (rqAmount request)
                   (currency t) w))
             \<lparr>transactions := transactions w0 @
                 [r\<lparr>status := completed, updatedAt := now out, completedAt := Some (now out)\<rparr>],
              events := events w @ [(''service:payment:transaction:completed'',
                 r\<lparr>status := completed, updatedAt := now out,
                   completedAt := Some (now out)\<rparr>)]\<rparr>))"
proof -
  let ?ub = "updateBalances out (rqPayerId request) (rqPayeeId request) (rqAmount request)
               (currency t) w"
  have tr: "transactions (snd ?ub) = transactions w0 @ [r]" using assms(1) by simp
  note up = updateTransaction_fresh[OF tr assms(2) assms(3), of out]
  show ?thesis
    unfolding settle_def
    by (simp add: andThen_alt updateTransactionStatus_def up applyUpdates_def emit_def
          resolve_def split: sum.split)
qed


lemma requiresPaymentProcessing_iff [simp]:
  "requiresPaymentProcessing payer payee \<longleftrightarrow> payer \<noteq> SELF_ENTITY"
  by (simp add: requiresPaymentProcessing_def)

lemma processNew_overflow:
  "\<not> fitsColumn (rqAmount request) \<Longrightarrow>
   processNew cfg out request w = (Inl ''numeric field overflow'', w)"
  by (simp add: processNew_def andThen_alt createTransaction_eq pendingData_def)

lemma processNew_eq:
  assumes "0 < rqAmount request" and "rqPayerId request \<noteq> rqPayeeId request"
    and "fitsColumn (rqAmount request)"
  shows "processNew cfg out request w =
     (case (if rqPayerId request = SELF_ENTITY then None else rqPaymentMethod request) of
        None \<Rightarrow>
          settle out (newTransaction (generateId w) out (pendingData cfg request)) request
            (w\<lparr>transactions := transactions w @
                  [newTransaction (generateId w) out (pendingData cfg request)]\<rparr>)
      | Some method \<Rightarrow>
         (case processPayment (processor cfg) out of
            Inl e \<Rightarrow>
              (Inl e,
               w\<lparr>processorLog := processorLog w @
                     [Charge (rqAmount request) (dCurrency (pendingData cfg request)) method
                        (generateId w) (rqPayerId request) (rqPayeeId request)],
                  transactions := transactions w @
                     [(newTransaction (generateId w) out (pendingData cfg request))
                        \<lparr>status := processing\<rparr>]\<rparr>)
          | Inr result \<Rightarrow>
              if \<not> success result
              then (Inr (Failure ''PAYMENT_FAILED''
                           (orDefault (error result) ''Payment processing failed'')),
                    w\<lparr>processorLog := processorLog w @
                          [Charge (rqAmount request) (dCurrency (pendingData cfg request)) method
                             (generateId w) (rqPayerId request) (rqPayeeId request)],
                       transactions := transactions w @
                          [(newTransaction (generateId w) out (pendingData cfg request))
                             \<lparr>status := failed\<rparr>]\<rparr>)
              else settle out (newTransaction (generateId w) out (pendingData cfg request))
                     request
                     (w\<lparr>processorLog := processorLog w @
                           [Charge (rqAmount request) (dCurrency (pendingData cfg request)) method
                              (generateId w) (rqPayerId request) (rqPayeeId request)],
                        transactions := transactions w @
                           [(newTransaction (generateId w) out (pendingData cfg request))
                              \<lparr>status := processing,
                               processorReference := reference result\<rparr>]\<rparr>)))"
proof -
  let ?t0 = "newTransaction (generateId w) out (pendingData cfg request)"
  have cr: "createTransaction out (pendingData cfg request) w =
              (Inr ?t0, w\<lparr>transactions := transactions w @ [?t0]\<rparr>)"
    using assms by (simp add: createTransaction_eq pendingData_def)
  have id0: "txId ?t0 = generateId w" by (simp add: newTransaction_def)
  have up: "\<And>w1 r u. transactions w1 = transactions w @ [r] \<Longrightarrow> txId r = generateId w \<Longrightarrow>
      updateTransaction out (generateId w) u w1 =
        (Inr ((applyUpdates r u)\<lparr>updatedAt := now out\<rparr>),
         w1\<lparr>transactions := transactions w @ [(applyUpdates r u)\<lparr>updatedAt := now out\<rparr>]\<rparr>)"
    by (rule updateTransaction_fresh) simp_all
  show ?thesis
    unfolding processNew_def
    by (simp add: andThen_alt cr id0 up updateTransactionStatus_def callProcessPayment_def
          applyUpdates_def resolve_def newTransaction_def split: option.split sum.split)
qed

text \<open>Balances under ensureAccount and the two UPDATE statements.\<close>

lemma ensureAccount_fst [simp]: "fst (ensureAccount out owner cur w) = Inr ()"
  using generateId_fresh_acc[of w]
  by (auto simp: ensureAccount_def resolve_def statement_def sqlInsertAccount_def
        list_ex_iff filter_empty_conv split: list.splits)

lemma ensureAccount_balanceOf [simp]:
  "balanceOf (snd (ensureAccount out owner cur w)) o' c' = balanceOf w o' c'"
  using generateId_fresh_acc[of w]
  by (auto simp: ensureAccount_def resolve_def statement_def sqlInsertAccount_def balanceOf_def
        list_ex_iff filter_empty_conv split: list.splits)

lemma ensureAccount_hasAccount:
  "owner \<noteq> SELF_ENTITY \<Longrightarrow> hasAccount (snd (ensureAccount out owner cur w)) owner cur"
  using generateId_fresh_acc[of w]
  by (auto simp: ensureAccount_def resolve_def statement_def sqlInsertAccount_def hasAccount_def
        list_ex_iff filter_empty_conv split: list.splits)

lemma ensureAccount_keeps_hasAccount:
  "hasAccount w o' c' \<Longrightarrow> hasAccount (snd (ensureAccount out owner cur w)) o' c'"
  using generateId_fresh_acc[of w]
  by (auto simp: ensureAccount_def resolve_def statement_def sqlInsertAccount_def hasAccount_def
        list_ex_iff split: list.splits)

lemma first_balance_map_update:
  "(case filter (\<lambda>r. ownerId r = o' \<and> accCurrency r = c')
            (map (\<lambda>r. if ownerId r = owner \<and> accCurrency r = cur
                       then r\<lparr>balance := balance r + delta, accUpdatedAt := t\<rparr> else r) rows) of
          [] \<Rightarrow> 0 | r # _ \<Rightarrow> balance r) =
        (if o' = owner \<and> c' = cur \<and> list_ex (\<lambda>r. ownerId r = owner \<and> accCurrency r = cur) rows
         then (case filter (\<lambda>r. ownerId r = o' \<and> accCurrency r = c') rows of
                 [] \<Rightarrow> 0 | r # _ \<Rightarrow> balance r) + delta
         else (case filter (\<lambda>r. ownerId r = o' \<and> accCurrency r = c') rows of
                 [] \<Rightarrow> 0 | r # _ \<Rightarrow> balance r))"
  by (induction rows) auto

lemma balanceOf_map_update:
  "balanceOf (w\<lparr>accounts := map (\<lambda>r. if ownerId r = owner \<and> accCurrency r = cur
                       then r\<lparr>balance := balance r + delta, accUpdatedAt := t\<rparr> else r)
                 (accounts w)\<rparr>) o' c' =
   (if o' = owner \<and> c' = cur \<and> hasAccount w owner cur then balanceOf w o' c' + delta
    else balanceOf w o' c')"
proof -
  have sel: "\<And>rows. accounts (w\<lparr>accounts := rows\<rparr>) = rows" by simp
  show ?thesis
    unfolding balanceOf_def hasAccount_def sel
    by (rule first_balance_map_update)
qed

lemma sqlUpdateBalance_balanceOf:
  "sqlUpdateBalance owner cur delta t w = Inr w' \<Longrightarrow>
   balanceOf w' o' c' =
     (if o' = owner \<and> c' = cur \<and> hasAccount w owner cur then balanceOf w o' c' + delta
      else balanceOf w o' c')"
  by (auto simp: sqlUpdateBalance_def balanceOf_map_update split: if_splits)

lemma list_ex_map_update:
  "list_ex (\<lambda>r. ownerId r = o' \<and> accCurrency r = c')
     (map (\<lambda>r. if ownerId r = owner \<and> accCurrency r = cur
                then r\<lparr>balance := balance r + delta, accUpdatedAt := t\<rparr> else r) rows) =
   list_ex (\<lambda>r. ownerId r = o' \<and> accCurrency r = c') rows"
  by (induction rows) auto

lemma sqlUpdateBalance_hasAccount:
  "sqlUpdateBalance owner cur delta t w = Inr w' \<Longrightarrow> hasAccount w' o' c' = hasAccount w o' c'"
  by (auto simp: sqlUpdateBalance_def hasAccount_def list_ex_map_update split: if_splits)

lemma sqlUpdateBalance_rejects:
  assumes "hasAccount w owner cur" and "balanceOf w owner cur + delta < 0"
  shows "sqlUpdateBalance owner cur delta t w = Inl ''positive_balance''"
proof -
  from assms(1) obtain r rs where f: "filter (\<lambda>r. ownerId r = owner \<and> accCurrency r = cur) (accounts w) = r # rs"
    by (cases "filter (\<lambda>r. ownerId r = owner \<and> accCurrency r = cur) (accounts w)")
       (auto simp: hasAccount_def list_ex_iff filter_empty_conv)
  then have "r \<in> set (filter (\<lambda>r. ownerId r = owner \<and> accCurrency r = cur) (accounts w))" by simp
  then have r: "r \<in> set (accounts w)" "ownerId r = owner" "accCurrency r = cur" by auto
  from f assms(2) have "balance r + delta < 0" by (simp add: balanceOf_def)
  with r show ?thesis by (auto simp: sqlUpdateBalance_def list_ex_iff)
qed


lemma updateBalances_unfold:
  "updateBalances out p q a c w =
     (case (if p \<noteq> SELF_ENTITY
            then sqlUpdateBalance p c (- a) (now out)
                   (snd (ensureAccount out q c (snd (ensureAccount out p c w))))
            else Inr (snd (ensureAccount out q c (snd (ensureAccount out p c w))))) of
        Inl e \<Rightarrow> (Inl e, snd (ensureAccount out q c (snd (ensureAccount out p c w))))
      | Inr w3 \<Rightarrow>
          (case (if q \<noteq> SELF_ENTITY then sqlUpdateBalance q c a (now out) w3 else Inr w3) of
             Inl e \<Rightarrow> (Inl e, w3)
           | Inr w4 \<Rightarrow> (Inr (), w4)))"
  by (simp add: updateBalances_def andThen_alt statement_def resolve_def split: sum.split)

lemma updateBalances_rejects:
  assumes "p \<noteq> SELF_ENTITY" and "balanceOf w p c < a"
  shows "fst (updateBalances out p q a c w) = Inl ''positive_balance''"
    and "balanceOf (snd (updateBalances out p q a c w)) o' c' = balanceOf w o' c'"
proof -
  let ?w2 = "snd (ensureAccount out q c (snd (ensureAccount out p c w)))"
  have "hasAccount ?w2 p c"
    by (intro ensureAccount_keeps_hasAccount ensureAccount_hasAccount assms(1))
  moreover have "balanceOf ?w2 p c + (- a) < 0" using assms(2) by simp
  ultimately have "sqlUpdateBalance p c (- a) (now out) ?w2 = Inl ''positive_balance''"
    by (rule sqlUpdateBalance_rejects)
  then have eq: "updateBalances out p q a c w = (Inl ''positive_balance'', ?w2)"
    using assms(1) by (simp add: updateBalances_unfold)
  show "fst (updateBalances out p q a c w) = Inl ''positive_balance''" by (simp add: eq)
  show "balanceOf (snd (updateBalances out p q a c w)) o' c' = balanceOf w o' c'"
    by (simp add: eq)
qed

lemma updateBalances_balanceOf:
  assumes "fst (updateBalances out p q a c w) = Inr u"
  shows "balanceOf (snd (updateBalances out p q a c w)) o' c' =
           balanceOf w o' c' - (if o' = p \<and> c' = c \<and> p \<noteq> SELF_ENTITY then a else 0)
             + (if o' = q \<and> c' = c \<and> q \<noteq> SELF_ENTITY then a else 0)"
proof -
  let ?w2 = "snd (ensureAccount out q c (snd (ensureAccount out p c w)))"
  have b2: "\<And>x y. balanceOf ?w2 x y = balanceOf w x y" by simp
  have hp: "p \<noteq> SELF_ENTITY \<Longrightarrow> hasAccount ?w2 p c"
    by (intro ensureAccount_keeps_hasAccount ensureAccount_hasAccount)
  have hq: "q \<noteq> SELF_ENTITY \<Longrightarrow> hasAccount ?w2 q c"
    by (intro ensureAccount_hasAccount)
  obtain w3 where d: "(if p \<noteq> SELF_ENTITY then sqlUpdateBalance p c (- a) (now out) ?w2
                       else Inr ?w2) = Inr w3"
    using assms by (cases "if p \<noteq> SELF_ENTITY then sqlUpdateBalance p c (- a) (now out) ?w2
                       else Inr ?w2") (auto simp: updateBalances_unfold)
  obtain w4 where k: "(if q \<noteq> SELF_ENTITY then sqlUpdateBalance q c a (now out) w3
                       else Inr w3) = Inr w4"
    using assms d by (cases "if q \<noteq> SELF_ENTITY then sqlUpdateBalance q c a (now out) w3
                       else Inr w3") (auto simp: updateBalances_unfold)
  have eq: "updateBalances out p q a c w = (Inr (), w4)"
    using d k by (simp add: updateBalances_unfold)
  have b3: "balanceOf w3 o' c' =
              balanceOf w o' c' - (if o' = p \<and> c' = c \<and> p \<noteq> SELF_ENTITY then a else 0)"
  proof (cases "p = SELF_ENTITY")
    case True
    with d have w3: "w3 = ?w2" by simp
    have "balanceOf w3 o' c' = balanceOf w o' c'" unfolding w3 by (rule b2)
    with True show ?thesis by simp
  next
    case False
    with d have "sqlUpdateBalance p c (- a) (now out) ?w2 = Inr w3" by simp
    from sqlUpdateBalance_balanceOf[OF this, of o' c'] hp[OF False] False
    show ?thesis by (simp add: b2)
  qed
  have h3: "q \<noteq> SELF_ENTITY \<Longrightarrow> hasAccount w3 q c"
  proof (cases "p = SELF_ENTITY")
    case True
    assume q: "q \<noteq> SELF_ENTITY"
    from d True have w3: "w3 = ?w2" by simp
    show ?thesis unfolding w3 by (rule hq[OF q])
  next
    case False
    assume q: "q \<noteq> SELF_ENTITY"
    from False d have "sqlUpdateBalance p c (- a) (now out) ?w2 = Inr w3" by simp
    from sqlUpdateBalance_hasAccount[OF this, of q c] hq[OF q] show ?thesis by simp
  qed
  have b4: "balanceOf w4 o' c' =
              balanceOf w3 o' c' + (if o' = q \<and> c' = c \<and> q \<noteq> SELF_ENTITY then a else 0)"
  proof (cases "q = SELF_ENTITY")
    case True
    with k show ?thesis by simp
  next
    case False
    with k have "sqlUpdateBalance q c a (now out) w3 = Inr w4" by simp
    from sqlUpdateBalance_balanceOf[OF this, of o' c'] h3[OF False] False
    show ?thesis by simp
  qed
  show ?thesis by (simp add: eq b4 b3)
qed

lemma balanceOf_frame [simp]:
  "balanceOf (w\<lparr>transactions := T\<rparr>) = balanceOf w"
  "balanceOf (w\<lparr>processorLog := L\<rparr>) = balanceOf w"
  "balanceOf (w\<lparr>events := E\<rparr>) = balanceOf w"
  by (simp_all add: balanceOf_def fun_eq_iff)

lemma validateTransaction_ok:
  "validateTransaction cfg request = Inr u \<Longrightarrow>
     0 < rqAmount request \<and> rqPayerId request \<noteq> rqPayeeId request"
  by (auto simp: validateTransaction_def split: if_splits)

text \<open>What a successful run of processNew leaves behind.\<close>

lemma processNew_Success:
  assumes pos: "0 < rqAmount request" and diff: "rqPayerId request \<noteq> rqPayeeId request"
    and run: "processNew cfg out request w = (Inr (Success t), w1)"
  shows "transactions w1 = transactions w @ [t]"
    and "txId t = generateId w"
    and "status t = completed"
    and "payerId t = rqPayerId request \<and> payeeId t = rqPayeeId request
           \<and> amount t = rqAmount request \<and> currency t = dCurrency (pendingData cfg request)"
    and "metadata t = (rqMetadata request)\<lparr>idempotencyKey := rqIdempotencyKey request\<rparr>"
    and "balanceOf w1 o' c' =
           balanceOf w o' c'
             - (if o' = rqPayerId request \<and> c' = currency t \<and> rqPayerId request \<noteq> SELF_ENTITY
                then rqAmount request else 0)
             + (if o' = rqPayeeId request \<and> c' = currency t \<and> rqPayeeId request \<noteq> SELF_ENTITY
                then rqAmount request else 0)"
    and "fitsColumn (rqAmount request)"
proof -
  let ?t0 = "newTransaction (generateId w) out (pendingData cfg request)"
  let ?cur = "dCurrency (pendingData cfg request)"
  have cur0: "currency ?t0 = ?cur" and id0: "txId ?t0 = generateId w"
    by (simp_all add: newTransaction_def)
  show fits: "fitsColumn (rqAmount request)"
  proof (rule ccontr)
    assume "\<not> fitsColumn (rqAmount request)"
    from processNew_overflow[OF this, of cfg out w] run show False by simp
  qed
  note eq = processNew_eq[OF pos diff fits, of cfg out w]
  have "\<exists>r wx. settle out ?t0 request wx = (Inr (Success t), w1)
          \<and> transactions wx = transactions w @ [r] \<and> events wx = events w
          \<and> balanceOf wx = balanceOf w \<and> txId r = generateId w
          \<and> payerId r = rqPayerId request \<and> payeeId r = rqPayeeId request
          \<and> amount r = rqAmount request \<and> currency r = ?cur
          \<and> metadata r = (rqMetadata request)\<lparr>idempotencyKey := rqIdempotencyKey request\<rparr>"
  proof (cases "if rqPayerId request = SELF_ENTITY then None else rqPaymentMethod request")
    case None
    with run eq
    have "settle out ?t0 request (w\<lparr>transactions := transactions w @ [?t0]\<rparr>)
            = (Inr (Success t), w1)" by simp
    then show ?thesis
      by (intro exI[of _ ?t0] exI[of _ "w\<lparr>transactions := transactions w @ [?t0]\<rparr>"])
         (simp add: newTransaction_def pendingData_def)
  next
    case (Some pm)
    show ?thesis
    proof (cases "processPayment (processor cfg) out")
      case (Inl e)
      with run eq Some show ?thesis by simp
    next
      case (Inr result)
      let ?r = "?t0\<lparr>status := processing, processorReference := reference result\<rparr>"
      let ?wx = "w\<lparr>processorLog := processorLog w @
                    [Charge (rqAmount request) ?cur pm (generateId w)
                       (rqPayerId request) (rqPayeeId request)],
                  transactions := transactions w @ [?r]\<rparr>"
      from run eq Some Inr have "settle out ?t0 request ?wx = (Inr (Success t), w1)"
        by (simp split: if_splits)
      then show ?thesis
        by (intro exI[of _ ?r] exI[of _ ?wx]) (simp add: newTransaction_def pendingData_def)
    qed
  qed
  then obtain r wx where st0: "settle out ?t0 request wx = (Inr (Success t), w1)"
    and trx: "transactions wx = transactions w @ [r]" and evx: "events wx = events w"
    and balx: "balanceOf wx = balanceOf w" and idr: "txId r = generateId w"
    and fields: "payerId r = rqPayerId request \<and> payeeId r = rqPayeeId request
                  \<and> amount r = rqAmount request \<and> currency r = ?cur
                  \<and> metadata r = (rqMetadata request)\<lparr>idempotencyKey := rqIdempotencyKey request\<rparr>"
    by blast
  note st = st0[unfolded settle_eq[OF trx idr id0] cur0]
  let ?ub = "updateBalances out (rqPayerId request) (rqPayeeId request) (rqAmount request) ?cur wx"
  obtain u where ok: "fst ?ub = Inr u"
    using st by (cases "fst ?ub") auto
  from st ok have t: "t = r\<lparr>status := completed, updatedAt := now out, completedAt := Some (now out)\<rparr>"
    and w1: "w1 = (snd ?ub)\<lparr>transactions := transactions w @ [t],
                      events := events wx @ [(''service:payment:transaction:completed'', t)]\<rparr>"
    by auto
  show "transactions w1 = transactions w @ [t]" by (simp add: w1)
  show "txId t = generateId w" by (simp add: t idr)
  show "status t = completed" by (simp add: t)
  show "payerId t = rqPayerId request \<and> payeeId t = rqPayeeId request
           \<and> amount t = rqAmount request \<and> currency t = dCurrency (pendingData cfg request)"
    by (simp add: t fields)
  show "metadata t = (rqMetadata request)\<lparr>idempotencyKey := rqIdempotencyKey request\<rparr>"
    by (simp add: t fields)
  have "currency t = ?cur" by (simp add: t fields)
  then show "balanceOf w1 o' c' =
           balanceOf w o' c'
             - (if o' = rqPayerId request \<and> c' = currency t \<and> rqPayerId request \<noteq> SELF_ENTITY
                then rqAmount request else 0)
             + (if o' = rqPayeeId request \<and> c' = currency t \<and> rqPayeeId request \<noteq> SELF_ENTITY
                then rqAmount request else 0)"
    using updateBalances_balanceOf[OF ok, of o' c'] by (simp add: w1 balx)
qed

text \<open>Symbolic execution of processRefund.\<close>

lemma getTransaction_Some:
  assumes "getTransaction i w = Some t"
  shows "txId t = i" and "t \<in> set (transactions w)"
proof -
  from assms obtain rs where "filter (\<lambda>row. txId row = i) (transactions w) = t # rs"
    by (auto simp: getTransaction_def split: list.splits)
  then have "t \<in> set (filter (\<lambda>row. txId row = i) (transactions w))" by simp
  then show "txId t = i" and "t \<in> set (transactions w)" by simp_all
qed

lemma getTransaction_append:
  "transactions w' = transactions w @ rs \<Longrightarrow> getTransaction i w = Some t
     \<Longrightarrow> getTransaction i w' = Some t"
  by (auto simp: getTransaction_def split: list.splits)

lemma updateRows_ids [simp]: "map txId (updateRows i u T) = map txId T"
  by (induction T) (simp_all add: updateRows_def)

lemma updateRows_fresh: "i \<notin> txId ` set T \<Longrightarrow> updateRows i u T = T"
  by (simp add: updateRows_def map_id_fresh)

lemma updateRows_append: "updateRows i u (T @ R) = updateRows i u T @ updateRows i u R"
  by (simp add: updateRows_def)

lemma updateTransaction_original:
  assumes "getTransaction i w0 = Some orig" and "transactions w = transactions w0 @ [r]"
    and "txId r = generateId w0"
  shows "updateTransaction out i u w =
           (Inr ((applyUpdates orig u)\<lparr>updatedAt := now out\<rparr>),
            w\<lparr>transactions :=
                updateRows i ((applyUpdates orig u)\<lparr>updatedAt := now out\<rparr>) (transactions w0) @ [r]\<rparr>)"
proof -
  from getTransaction_Some[OF assms(1)] have "txId orig = i" and "orig \<in> set (transactions w0)"
    by simp_all
  then have "generateId w0 \<noteq> i" using generateId_not_stored[of orig w0] by auto
  with assms(3) have "updateRows i u' [r] = [r]" for u' by (simp add: updateRows_def)
  with getTransaction_append[OF assms(2,1)] assms(2) show ?thesis
    by (simp add: updateTransaction_def Let_def sqlUpdateTransaction_def updateRows_append)
qed

lemma updateTransaction_refund_row:
  assumes "transactions w = updateRows i u' (transactions w0) @ [r]" and "txId r = generateId w0"
  shows "updateTransaction out (generateId w0) u w =
           (Inr ((applyUpdates r u)\<lparr>updatedAt := now out\<rparr>),
            w\<lparr>transactions := updateRows i u' (transactions w0)
                  @ [(applyUpdates r u)\<lparr>updatedAt := now out\<rparr>]\<rparr>)"
proof -
  have "txId r \<notin> txId ` set (updateRows i u' (transactions w0))"
    using generateId_fresh_tx[of w0] assms(2)
    by (simp only: set_map[symmetric] updateRows_ids) simp
  from updateTransaction_last[OF assms(1) this, of out u] assms(2) show ?thesis by simp
qed

lemma processorRefund_success: "processorRefund pc = Inr result \<Longrightarrow> success result"
  by (auto simp: processorRefund_def split: Provider.splits if_splits)

lemma refundNew_overflow:
  "\<not> fitsColumn (refundAmountOf request orig) \<Longrightarrow>
   refundNew cfg out request orig w = (Inl ''numeric field overflow'', w)"
  by (simp add: refundNew_def Let_def andThen_alt createTransaction_eq refundData_def)

lemma refundNew_thrown:
  assumes "getTransaction (transactionId request) w = Some orig"
    and "0 < refundAmountOf request orig" and "payerId orig \<noteq> payeeId orig"
    and "fitsColumn (refundAmountOf request orig)"
    and "processorReference orig = Some ref" and "ref \<noteq> []"
    and "processorRefund (processor cfg) = Inl e"
  shows "refundNew cfg out request orig w =
     (Inl e,
      w\<lparr>processorLog := processorLog w @
           [Refund ref (refundAmountOf request orig) (currency orig)],
        transactions := transactions w @
           [newTransaction (generateId w) out (refundData request orig)]\<rparr>)"
proof -
  let ?r0 = "newTransaction (generateId w) out (refundData request orig)"
  have cr: "createTransaction out (refundData request orig) w =
              (Inr ?r0, w\<lparr>transactions := transactions w @ [?r0]\<rparr>)"
    using assms(2,3,4) by (auto simp: createTransaction_eq refundData_def)
  show ?thesis
    unfolding refundNew_def Let_def refundAtProcessor_def
    using assms(5,6,7)
    by (simp add: andThen_alt cr callProcessRefund_def)
qed

lemma processRefund_found:
  assumes "refundsEnabled cfg" and "getTransaction (transactionId request) w = Some orig"
    and "status orig = completed"
  shows "processRefund cfg out request w =
     (case refundNew cfg out request orig w of
        (Inl e, w') \<Rightarrow> (Failure ''REFUND_ERROR'' e, w')
      | (Inr r, w') \<Rightarrow> (r, w'))"
  using assms by (simp add: processRefund_def processRefundTry_def)

lemma refundNew_settled:
  assumes found: "getTransaction (transactionId request) w = Some orig"
    and pos: "0 < refundAmountOf request orig" and diff: "payerId orig \<noteq> payeeId orig"
    and fits: "fitsColumn (refundAmountOf request orig)"
    and go: "processorReference orig = None \<or> processorReference orig = Some []
             \<or> (\<exists>result. processorRefund (processor cfg) = Inr result)"
  shows "\<exists>L. refundNew cfg out request orig w =
     (case fst (updateBalances out (payeeId orig) (payerId orig) (refundAmountOf request orig)
                  (currency orig)
                  (w\<lparr>processorLog := L, transactions := transactions w @
                        [newTransaction (generateId w) out (refundData request orig)]\<rparr>)) of
        Inl e \<Rightarrow>
          (Inl e, snd (updateBalances out (payeeId orig) (payerId orig)
                         (refundAmountOf request orig) (currency orig)
                         (w\<lparr>processorLog := L, transactions := transactions w @
                               [newTransaction (generateId w) out (refundData request orig)]\<rparr>)))
      | Inr _ \<Rightarrow>
          (Inr (Success ((newTransaction (generateId w) out (refundData request orig))
                           \<lparr>status := completed, completedAt := Some (now out)\<rparr>)),
           (snd (updateBalances out (payeeId orig) (payerId orig)
                   (refundAmountOf request orig) (currency orig)
                   (w\<lparr>processorLog := L, transactions := transactions w @
                         [newTransaction (generateId w) out (refundData request orig)]\<rparr>)))
             \<lparr>transactions :=
                 updateRows (txId orig) (orig\<lparr>status := refunded, updatedAt := now out\<rparr>)
                   (transactions w)
                 @ [(newTransaction (generateId w) out (refundData request orig))
                      \<lparr>status := completed, completedAt := Some (now out)\<rparr>],
              events := events w @ [(''service:payment:refund:completed'',
                 (newTransaction (generateId w) out (refundData request orig))
                   \<lparr>status := completed, completedAt := Some (now out)\<rparr>)]\<rparr>))"
proof -
  let ?r0 = "newTransaction (generateId w) out (refundData request orig)"
  let ?ra = "refundAmountOf request orig"
  have cr: "createTransaction out (refundData request orig) w =
              (Inr ?r0, w\<lparr>transactions := transactions w @ [?r0]\<rparr>)"
    using pos diff fits by (auto simp: createTransaction_eq refundData_def)
  have id0: "txId ?r0 = generateId w" and upd0: "updatedAt ?r0 = now out"
    and pp: "payerId ?r0 = payeeId orig" "payeeId ?r0 = payerId orig"
    by (simp_all add: newTransaction_def refundData_def)
  have ido: "txId orig = transactionId request" using getTransaction_Some(1)[OF found] .
  define L where "L = (case processorReference orig of
                         None \<Rightarrow> processorLog w
                       | Some ref \<Rightarrow> if ref = [] then processorLog w
                                     else processorLog w @ [Refund ref ?ra (currency orig)])"
  let ?wx = "w\<lparr>processorLog := L, transactions := transactions w @ [?r0]\<rparr>"
  have atp: "refundAtProcessor cfg out orig ?r0 ?ra (w\<lparr>transactions := transactions w @ [?r0]\<rparr>)
               = (Inr None, ?wx)"
    using go
    by (auto simp: refundAtProcessor_def L_def resolve_def andThen_alt callProcessRefund_def
          processorRefund_success split: option.splits)
  let ?ub = "updateBalances out (payeeId orig) (payerId orig) ?ra (currency orig) ?wx"
  have tr: "transactions (snd ?ub) = transactions w @ [?r0]" by simp
  note up1 = updateTransaction_original[OF found tr id0, of out, unfolded ido[symmetric]]
  have rest: "(case fst ?ub of Inl e \<Rightarrow> (Inl e, snd ?ub)
         | Inr x \<Rightarrow>
             andThen (updateTransactionStatus out (txId orig) refunded) (\<lambda>_.
             andThen (updateTransactionStatus out (txId ?r0) completed) (\<lambda>completedRefund.
             andThen (emit ''refund:completed'' completedRefund) (\<lambda>_.
             resolve (Success completedRefund)))) (snd ?ub)) =
     (case fst ?ub of
        Inl e \<Rightarrow> (Inl e, snd ?ub)
      | Inr _ \<Rightarrow>
          (Inr (Success (?r0\<lparr>status := completed, completedAt := Some (now out)\<rparr>)),
           (snd ?ub)
             \<lparr>transactions :=
                 updateRows (txId orig) (orig\<lparr>status := refunded, updatedAt := now out\<rparr>)
                   (transactions w)
                 @ [?r0\<lparr>status := completed, completedAt := Some (now out)\<rparr>],
              events := events w @ [(''service:payment:refund:completed'',
                 ?r0\<lparr>status := completed, completedAt := Some (now out)\<rparr>)]\<rparr>))"
  proof (cases "fst ?ub")
    case (Inl e)
    then show ?thesis by simp
  next
    case (Inr x)
    have s1: "updateTransactionStatus out (txId orig) refunded (snd ?ub) =
        (Inr (orig\<lparr>status := refunded, updatedAt := now out\<rparr>),
         (snd ?ub)\<lparr>transactions :=
            updateRows (txId orig) (orig\<lparr>status := refunded, updatedAt := now out\<rparr>)
              (transactions w) @ [?r0]\<rparr>)"
      by (simp add: updateTransactionStatus_def up1 applyUpdates_def)
    let ?w3 = "(snd ?ub)\<lparr>transactions :=
            updateRows (txId orig) (orig\<lparr>status := refunded, updatedAt := now out\<rparr>)
              (transactions w) @ [?r0]\<rparr>"
    have tr3: "transactions ?w3 =
            updateRows (txId orig) (orig\<lparr>status := refunded, updatedAt := now out\<rparr>)
              (transactions w) @ [?r0]" by simp
    have s2: "updateTransactionStatus out (txId ?r0) completed ?w3 =
        (Inr (?r0\<lparr>status := completed, completedAt := Some (now out)\<rparr>),
         ?w3\<lparr>transactions :=
            updateRows (txId orig) (orig\<lparr>status := refunded, updatedAt := now out\<rparr>)
              (transactions w) @ [?r0\<lparr>status := completed, completedAt := Some (now out)\<rparr>]\<rparr>)"
    proof -
      have row: "(applyUpdates ?r0 \<lparr> uStatus = Some completed, uProcessorReference = None,
                    uCompletedAt = Some (now out) \<rparr>)\<lparr>updatedAt := now out\<rparr>
                 = ?r0\<lparr>status := completed, completedAt := Some (now out)\<rparr>"
        by (simp add: applyUpdates_def newTransaction_def)
      show ?thesis
        unfolding id0 updateTransactionStatus_def
        using updateTransaction_refund_row[OF tr3 id0, of out
                "\<lparr> uStatus = Some completed, uProcessorReference = None,
                   uCompletedAt = Some (now out) \<rparr>"]
        by (simp add: row)
    qed
    show ?thesis
      by (simp add: Inr andThen_alt s1 s2 emit_def resolve_def)
  qed
  have "refundNew cfg out request orig w =
     (case fst ?ub of Inl e \<Rightarrow> (Inl e, snd ?ub)
         | Inr x \<Rightarrow>
             andThen (updateTransactionStatus out (txId orig) refunded) (\<lambda>_.
             andThen (updateTransactionStatus out (txId ?r0) completed) (\<lambda>completedRefund.
             andThen (emit ''refund:completed'' completedRefund) (\<lambda>_.
             resolve (Success completedRefund)))) (snd ?ub))"
    unfolding refundNew_def Let_def
    by (simp add: andThen_alt[of "createTransaction out (refundData request orig)"] cr
          andThen_alt[of "refundAtProcessor cfg out orig ?r0 ?ra"] atp
          andThen_alt[of "updateBalances out (payeeId orig) (payerId orig) ?ra (currency orig)"]
          pp resolve_def)
  with rest show ?thesis by (intro exI[of _ L]) simp
qed

section \<open>The claims\<close>

lemma processTransaction_invalid:
  "validateTransaction cfg request = Inl msg \<Longrightarrow>
   processTransaction cfg out request w = (Failure ''TRANSACTION_ERROR'' msg, w)"
  by (simp add: processTransaction_def processTransactionTry_def throw_def)

lemma processTransaction_replay:
  "validateTransaction cfg request = Inr u \<Longrightarrow> existingFor request w = Some t \<Longrightarrow>
   processTransaction cfg out request w = (Success t, w)"
  by (simp add: processTransaction_def processTransactionTry_def resolve_def)

lemma processTransaction_new:
  "validateTransaction cfg request = Inr u \<Longrightarrow> existingFor request w = None \<Longrightarrow>
   processTransaction cfg out request w =
     (case processNew cfg out request w of
        (Inl e, w') \<Rightarrow> (Failure ''TRANSACTION_ERROR'' e, w')
      | (Inr r, w') \<Rightarrow> (r, w'))"
  by (simp add: processTransaction_def processTransactionTry_def)

lemma findByIdempotencyKey_stored:
  "findByIdempotencyKey key w = Some t \<Longrightarrow>
     t \<in> set (transactions w) \<and> idempotencyKey (metadata t) = Some key"
proof -
  assume a: "findByIdempotencyKey key w = Some t"
  then obtain rs where "filter (\<lambda>row. idempotencyKey (metadata row) = Some key) (transactions w) = t # rs"
    by (auto simp: findByIdempotencyKey_def split: list.splits)
  then have "t \<in> set (filter (\<lambda>row. idempotencyKey (metadata row) = Some key) (transactions w))"
    by simp
  then show ?thesis by simp
qed

lemma findByIdempotencyKey_exists:
  assumes "s \<in> set (transactions w)" and "idempotencyKey (metadata s) = Some key"
  shows "\<exists>t. findByIdempotencyKey key w = Some t"
proof -
  from assms have "s \<in> set (filter (\<lambda>row. idempotencyKey (metadata row) = Some key) (transactions w))"
    by simp
  then show ?thesis
    by (cases "filter (\<lambda>row. idempotencyKey (metadata row) = Some key) (transactions w)")
       (auto simp: findByIdempotencyKey_def)
qed

text \<open>
  C7 (as amended). A request that violates a validation rule (amount not positive, amount
  below the configured minimum, amount above a configured maximum other than 0, payer
  equal to payee, or a missing payer or payee) gets the failure result of code
  TRANSACTION_ERROR that carries the validation message, and the world is left as it was:
  no row is created, no balance changes, the processor is not called.
\<close>

theorem validation_failure_has_no_effect:
  assumes "rqAmount request \<le> 0
         \<or> (\<exists>m. minTransactionAmount cfg = Some m \<and> rqAmount request < m)
         \<or> (\<exists>m. maxTransactionAmount cfg = Some m \<and> m \<noteq> 0 \<and> m < rqAmount request)
         \<or> rqPayerId request = rqPayeeId request
         \<or> rqPayerId request = [] \<or> rqPayeeId request = []"
  shows "\<exists>msg. validateTransaction cfg request = Inl msg
           \<and> processTransaction cfg out request w = (Failure ''TRANSACTION_ERROR'' msg, w)"
proof -
  from assms obtain msg where "validateTransaction cfg request = Inl msg"
    by (cases "validateTransaction cfg request")
       (auto simp: validateTransaction_def split: if_splits option.splits)
  then show ?thesis by (auto simp: processTransaction_invalid)
qed

theorem validation_failure_witness:
  "rqAmount (transfer ''user_1'' ''user_2'' 0) \<le> 0
   \<and> processTransaction alwaysSucceeds outside0 (transfer ''user_1'' ''user_2'' 0) ledgerUser1
       = (Failure ''TRANSACTION_ERROR'' ''Transaction amount must be positive'', ledgerUser1)"
proof -
  have h: "rqAmount (transfer ''user_1'' ''user_2'' 0) \<le> 0" by (simp add: transfer_def)
  have v: "validateTransaction alwaysSucceeds (transfer ''user_1'' ''user_2'' 0)
             = Inl ''Transaction amount must be positive''"
    by (simp add: validateTransaction_def transfer_def)
  from validation_failure_has_no_effect[of "transfer ''user_1'' ''user_2'' 0" alwaysSucceeds
         outside0 ledgerUser1] h v
  show ?thesis by auto
qed

theorem zero_maximum_counterexample:
  "maxTransactionAmount zeroMaximum = Some 0 \<and> rqAmount smallTransfer = 50000
   \<and> validateTransaction zeroMaximum smallTransfer = Inr ()
   \<and> map status
        (transactions (snd (processTransaction zeroMaximum outside0 smallTransfer ledgerUser2)))
       = [completed]
   \<and> balanceOf (snd (processTransaction zeroMaximum outside0 smallTransfer ledgerUser2))
        ''user_3'' USD = 50000
   \<and> fst (processTransaction alwaysSucceeds outside0 (transfer ''user_1'' ''user_2'' 0) ledgerUser1)
       = Failure ''TRANSACTION_ERROR'' ''Transaction amount must be positive''"
  by code_simp

text \<open>
  C10 (as amended). A call that passes validation and whose non-empty idempotency key is
  carried by a stored transaction returns success with the first stored transaction under
  that key, exactly as stored, whatever its status and whatever amount, payer and payee
  the new request names; it creates no row, calls no processor and changes no balance.
\<close>

theorem replay_returns_stored_transaction:
  assumes "validateTransaction cfg request = Inr ()"
    and "rqIdempotencyKey request = Some key" and "key \<noteq> []"
    and "s \<in> set (transactions w)" and "idempotencyKey (metadata s) = Some key"
  shows "\<exists>t. processTransaction cfg out request w = (Success t, w)
           \<and> findByIdempotencyKey key w = Some t
           \<and> t \<in> set (transactions w) \<and> idempotencyKey (metadata t) = Some key"
proof -
  from findByIdempotencyKey_exists[OF assms(4,5)]
  obtain t where t: "findByIdempotencyKey key w = Some t" by blast
  with assms(2,3) have "existingFor request w = Some t" by (simp add: existingFor_def)
  from processTransaction_replay[OF assms(1) this] t findByIdempotencyKey_stored[OF t]
  show ?thesis by blast
qed

theorem replay_returns_stored_transaction_witness:
  "validateTransaction alwaysSucceeds
     ((transfer ''user_7'' ''user_8'' 50000)\<lparr>rqIdempotencyKey := Some ''k1''\<rparr>) = Inr ()
   \<and> declinedRow \<in> set (transactions ledgerDeclined)
   \<and> idempotencyKey (metadata declinedRow) = Some ''k1''
   \<and> status declinedRow = failed
   \<and> processTransaction alwaysSucceeds outside0
       ((transfer ''user_7'' ''user_8'' 50000)\<lparr>rqIdempotencyKey := Some ''k1''\<rparr>) ledgerDeclined
       = (Success declinedRow, ledgerDeclined)"
proof -
  let ?rq = "(transfer ''user_7'' ''user_8'' 50000)\<lparr>rqIdempotencyKey := Some ''k1''\<rparr>"
  have h1: "validateTransaction alwaysSucceeds ?rq = Inr ()" by code_simp
  have h2: "rqIdempotencyKey ?rq = Some ''k1''" by simp
  have h3: "''k1'' \<noteq> []" by simp
  have h4: "declinedRow \<in> set (transactions ledgerDeclined)" by (simp add: ledgerDeclined_def)
  have h5: "idempotencyKey (metadata declinedRow) = Some ''k1''" by (simp add: declinedRow_def)
  have h6: "findByIdempotencyKey ''k1'' ledgerDeclined = Some declinedRow" by code_simp
  have h7: "status declinedRow = failed" by (simp add: declinedRow_def)
  from replay_returns_stored_transaction[OF h1 h2 h3 h4 h5, of outside0] h1 h4 h5 h6 h7
  show ?thesis by auto
qed

theorem replay_after_validation_counterexample:
  "rqIdempotencyKey (keyedCharge\<lparr>rqAmount := 0\<rparr>) = Some ''k1''
   \<and> findByIdempotencyKey ''k1'' ledgerDeclined = Some declinedRow
   \<and> processTransaction alwaysSucceeds outside0 (keyedCharge\<lparr>rqAmount := 0\<rparr>) ledgerDeclined
       = (Failure ''TRANSACTION_ERROR'' ''Transaction amount must be positive'', ledgerDeclined)"
  by code_simp

lemma findByIdempotencyKey_append_new:
  assumes "findByIdempotencyKey key w = None"
    and "transactions w1 = transactions w @ [t]" and "idempotencyKey (metadata t) = Some key"
  shows "findByIdempotencyKey key w1 = Some t"
proof -
  from assms(1) have "filter (\<lambda>row. idempotencyKey (metadata row) = Some key) (transactions w) = []"
    by (simp add: findByIdempotencyKey_def split: list.splits)
  with assms(2,3) show ?thesis by (simp add: findByIdempotencyKey_def)
qed

text \<open>
  C3 (as amended). For every non-empty idempotency key: when a call of processTransaction
  with the key returns success, a second call with the same key whose request passes
  validation returns success with the same transaction, and leaves the world as the first
  call left it: no new row, no call of the processor, no change of a balance.
\<close>

theorem retry_with_same_key_is_replayed:
  assumes "rqIdempotencyKey first = Some key" and "key \<noteq> []"
    and "rqIdempotencyKey second = Some key"
    and "validateTransaction cfg second = Inr ()"
    and "processTransaction cfg out1 first w = (Success t, w1)"
  shows "processTransaction cfg out2 second w1 = (Success t, w1)"
proof -
  have valid1: "validateTransaction cfg first = Inr ()"
  proof (cases "validateTransaction cfg first")
    case (Inl msg)
    from processTransaction_invalid[OF this, of out1 w] assms(5) show ?thesis by simp
  next
    case (Inr u)
    then show ?thesis by simp
  qed
  have "findByIdempotencyKey key w1 = Some t"
  proof (cases "existingFor first w")
    case (Some e)
    from processTransaction_replay[OF valid1 this, of out1] assms(5)
    have "e = t" and "w1 = w" by simp_all
    with Some assms(1,2) show ?thesis by (simp add: existingFor_def)
  next
    case None
    with assms(1,2) have none: "findByIdempotencyKey key w = None" by (simp add: existingFor_def)
    from processTransaction_new[OF valid1 None, of out1] assms(5)
    have run: "processNew cfg out1 first w = (Inr (Success t), w1)"
      by (auto split: prod.splits sum.splits)
    from validateTransaction_ok[OF valid1]
    have pos: "0 < rqAmount first" and diff: "rqPayerId first \<noteq> rqPayeeId first" by simp_all
    from processNew_Success(1)[OF pos diff run] processNew_Success(5)[OF pos diff run] assms(1)
    have "transactions w1 = transactions w @ [t]" and "idempotencyKey (metadata t) = Some key"
      by simp_all
    from findByIdempotencyKey_append_new[OF none this] show ?thesis .
  qed
  with assms(2,3) have "existingFor second w1 = Some t" by (simp add: existingFor_def)
  from processTransaction_replay[OF assms(4) this] show ?thesis .
qed

theorem retry_with_same_key_witness:
  "rqIdempotencyKey keyedTransfer = Some ''k2'' \<and> ''k2'' \<noteq> []
   \<and> validateTransaction alwaysSucceeds keyedTransfer = Inr ()
   \<and> (case processTransaction alwaysSucceeds outside0 keyedTransfer ledgerUser2 of
         (r1, w1) \<Rightarrow>
           (case r1 of Success t \<Rightarrow> status t = completed | Failure c m \<Rightarrow> False)
           \<and> processTransaction alwaysSucceeds (outside0\<lparr>now := 2000\<rparr>) keyedTransfer w1 = (r1, w1))"
proof -
  have h1: "rqIdempotencyKey keyedTransfer = Some ''k2''" by (simp add: keyedTransfer_def)
  have h2: "''k2'' \<noteq> []" by simp
  have h4: "validateTransaction alwaysSucceeds keyedTransfer = Inr ()" by code_simp
  obtain t w1 where h5: "processTransaction alwaysSucceeds outside0 keyedTransfer ledgerUser2 = (Success t, w1)"
    and st: "status t = completed"
  proof -
    have "case processTransaction alwaysSucceeds outside0 keyedTransfer ledgerUser2 of
            (Success t, w1) \<Rightarrow> status t = completed | (Failure c m, w1) \<Rightarrow> False"
      by code_simp
    then show ?thesis using that by (auto split: prod.splits TransactionResult.splits)
  qed
  from retry_with_same_key_is_replayed[OF h1 h2 h1 h4 h5, of "outside0\<lparr>now := 2000\<rparr>"] h1 h2 h4 h5 st
  show ?thesis by simp
qed

theorem retry_after_decline_counterexample:
  "rqIdempotencyKey keyedCharge = Some ''k1''
   \<and> processTransaction mockProvider lowDraw keyedCharge ledgerUser1
       = (Failure ''PAYMENT_FAILED'' ''Mock payment failed (random failure)'', ledgerDeclined)
   \<and> processTransaction mockProvider lowDraw keyedCharge ledgerDeclined
       = (Success declinedRow, ledgerDeclined)
   \<and> status declinedRow = failed"
  by code_simp

text \<open>
  C6. The request passes validation, has a payer other than SELF and carries a payment
  method, and the processor is configured so that every charge fails (a real provider
  outside test mode). The call of processPayment throws, the catch block of
  processTransaction returns TRANSACTION_ERROR, and the transaction stays in status
  processing; the accounts table is untouched. With the mock provider and a low draw the
  same request is declined by a returned failure, and then the result is PAYMENT_FAILED
  and the transaction is marked failed. A charge that succeeds leaves its reference on the
  transaction.
\<close>

theorem thrown_charge_leaves_transaction_processing:
  "validateTransaction alwaysFails keyedCharge = Inr ()
   \<and> rqPayerId keyedCharge \<noteq> SELF_ENTITY
   \<and> rqPaymentMethod keyedCharge = Some credit_card
   \<and> processPayment (processor alwaysFails) outside0
       = Inl ''Stripe integration not yet implemented''
   \<and> fst (processTransaction alwaysFails outside0 keyedCharge ledgerUser1)
       = Failure ''TRANSACTION_ERROR'' ''Stripe integration not yet implemented''
   \<and> map status (transactions (snd (processTransaction alwaysFails outside0 keyedCharge ledgerUser1)))
       = [processing]
   \<and> accounts (snd (processTransaction alwaysFails outside0 keyedCharge ledgerUser1))
       = accounts ledgerUser1
   \<and> fst (processTransaction mockProvider lowDraw keyedCharge ledgerUser1)
       = Failure ''PAYMENT_FAILED'' ''Mock payment failed (random failure)''
   \<and> map status (transactions (snd (processTransaction mockProvider lowDraw keyedCharge ledgerUser1)))
       = [failed]
   \<and> map processorReference
        (transactions (snd (processTransaction alwaysSucceeds outside0 cardTopUp ledgerUser2)))
       = [Some ''stripe_1000_abc'']"
  by code_simp

text \<open>
  C1 (as amended). No sequence of calls of the service drives the balance of an account
  row below 0. A transfer that passes validation, is not a replay, and whose amount exceeds
  the balance of its payer (not SELF) is rejected with a failure result, and the balance of
  every owner in every currency is left unchanged. For an amount that fits its column the
  result is TRANSACTION_ERROR with the message of the store's positive_balance constraint
  when no charge is attempted or the charge succeeds, and PAYMENT_FAILED when the charge
  is declined.
\<close>

theorem balances_never_negative:
  "(nonNegative w \<longrightarrow> nonNegative (runCalls cfg calls w))
   \<and> (validateTransaction cfg request = Inr () \<and> existingFor request w = None
        \<and> rqPayerId request \<noteq> SELF_ENTITY
        \<and> balanceOf w (rqPayerId request) (dCurrency (pendingData cfg request)) < rqAmount request
      \<longrightarrow> (\<exists>code msg. fst (processTransaction cfg out request w) = Failure code msg)
          \<and> (\<forall>owner cur. balanceOf (snd (processTransaction cfg out request w)) owner cur
                            = balanceOf w owner cur)
          \<and> (fitsColumn (rqAmount request)
               \<and> (rqPaymentMethod request = None
                    \<or> (\<exists>result. processPayment (processor cfg) out = Inr result \<and> success result))
              \<longrightarrow> fst (processTransaction cfg out request w)
                    = Failure ''TRANSACTION_ERROR'' ''positive_balance'')
          \<and> (fitsColumn (rqAmount request) \<and> rqPaymentMethod request \<noteq> None
               \<and> (\<exists>result. processPayment (processor cfg) out = Inr result \<and> \<not> success result)
              \<longrightarrow> (\<exists>msg. fst (processTransaction cfg out request w)
                           = Failure ''PAYMENT_FAILED'' msg)))"
proof (rule conjI; rule impI)
  assume "nonNegative w"
  then show "nonNegative (runCalls cfg calls w)" by (rule runCalls_nonNegative)
next
  assume a: "validateTransaction cfg request = Inr () \<and> existingFor request w = None
        \<and> rqPayerId request \<noteq> SELF_ENTITY
        \<and> balanceOf w (rqPayerId request) (dCurrency (pendingData cfg request)) < rqAmount request"
  then have valid: "validateTransaction cfg request = Inr ()"
    and new: "existingFor request w = None"
    and payer: "rqPayerId request \<noteq> SELF_ENTITY"
    and short: "balanceOf w (rqPayerId request) (dCurrency (pendingData cfg request))
                  < rqAmount request"
    by simp_all
  from validateTransaction_ok[OF valid]
  have pos: "0 < rqAmount request" and diff: "rqPayerId request \<noteq> rqPayeeId request" by simp_all
  note run0 = processTransaction_new[OF valid new, of out]
  let ?R = "processTransaction cfg out request w"
  let ?t0 = "newTransaction (generateId w) out (pendingData cfg request)"
  let ?cur = "dCurrency (pendingData cfg request)"
  let ?goal = "(\<exists>code msg. fst ?R = Failure code msg)
          \<and> (\<forall>owner cur. balanceOf (snd ?R) owner cur = balanceOf w owner cur)
          \<and> (fitsColumn (rqAmount request)
               \<and> (rqPaymentMethod request = None
                    \<or> (\<exists>result. processPayment (processor cfg) out = Inr result \<and> success result))
              \<longrightarrow> fst ?R = Failure ''TRANSACTION_ERROR'' ''positive_balance'')
          \<and> (fitsColumn (rqAmount request) \<and> rqPaymentMethod request \<noteq> None
               \<and> (\<exists>result. processPayment (processor cfg) out = Inr result \<and> \<not> success result)
              \<longrightarrow> (\<exists>msg. fst ?R = Failure ''PAYMENT_FAILED'' msg))"
  have id0: "txId ?t0 = generateId w" and cur0: "currency ?t0 = ?cur"
    by (simp_all add: newTransaction_def)
  have rejected: "settle out ?t0 request wx =
      (Inl ''positive_balance'',
       snd (updateBalances out (rqPayerId request) (rqPayeeId request) (rqAmount request) ?cur wx))
    \<and> balanceOf (snd (updateBalances out (rqPayerId request) (rqPayeeId request)
                         (rqAmount request) ?cur wx)) = balanceOf w"
    if tr: "transactions wx = transactions w @ [r]" and idr: "txId r = generateId w"
      and bal: "balanceOf wx = balanceOf w" for wx r
  proof -
    from short bal have "balanceOf wx (rqPayerId request) ?cur < rqAmount request" by simp
    note rej = updateBalances_rejects[OF payer this, of out "rqPayeeId request"]
    from rej(2) bal have "balanceOf (snd (updateBalances out (rqPayerId request) (rqPayeeId request)
                         (rqAmount request) ?cur wx)) = balanceOf w"
      by (simp add: fun_eq_iff)
    with rej(1) show ?thesis
      unfolding settle_eq[OF tr idr id0] cur0 by simp
  qed
  show ?goal
  proof (cases "fitsColumn (rqAmount request)")
    case False
    from run0[unfolded processNew_overflow[OF False]] False show ?thesis by simp
  next
    case fits: True
    note run = run0[unfolded processNew_eq[OF pos diff fits]]
    show ?thesis
    proof (cases "rqPaymentMethod request")
      case None
      have "settle out ?t0 request (w\<lparr>transactions := transactions w @ [?t0]\<rparr>) =
        (Inl ''positive_balance'',
         snd (updateBalances out (rqPayerId request) (rqPayeeId request) (rqAmount request) ?cur
                (w\<lparr>transactions := transactions w @ [?t0]\<rparr>)))
      \<and> balanceOf (snd (updateBalances out (rqPayerId request) (rqPayeeId request)
                         (rqAmount request) ?cur (w\<lparr>transactions := transactions w @ [?t0]\<rparr>)))
          = balanceOf w"
        by (rule rejected[of _ ?t0]) (simp_all add: id0)
      with run None payer show ?thesis by simp
    next
      case (Some pm)
      show ?thesis
      proof (cases "processPayment (processor cfg) out")
        case (Inl e)
        with run Some payer show ?thesis by simp
      next
        case (Inr result)
        show ?thesis
        proof (cases "success result")
          case False
          with run Some payer Inr show ?thesis by simp
        next
          case True
          let ?r = "?t0\<lparr>status := processing, processorReference := reference result\<rparr>"
          let ?wx = "w\<lparr>processorLog := processorLog w @
                       [Charge (rqAmount request) ?cur pm (generateId w)
                          (rqPayerId request) (rqPayeeId request)],
                     transactions := transactions w @ [?r]\<rparr>"
          have "settle out ?t0 request ?wx =
            (Inl ''positive_balance'',
             snd (updateBalances out (rqPayerId request) (rqPayeeId request) (rqAmount request)
                    ?cur ?wx))
          \<and> balanceOf (snd (updateBalances out (rqPayerId request) (rqPayeeId request)
                             (rqAmount request) ?cur ?wx)) = balanceOf w"
            by (rule rejected[of _ ?r]) (simp_all add: id0)
          with run Some payer Inr True show ?thesis by simp
        qed
      qed
    qed
  qed
qed

theorem balances_never_negative_witness:
  "nonNegative ledgerUser2
   \<and> nonNegative (runCalls alwaysSucceeds
        [(outside0, Transfer (transfer ''user_2'' ''user_3'' 50000)),
         (outside0, Transfer overdraft),
         (outside0, RefundOf \<lparr> transactionId = 2, rfAmount = None, rfReason = None \<rparr>)]
        ledgerUser2)
   \<and> validateTransaction alwaysSucceeds overdraft = Inr ()
   \<and> existingFor overdraft ledgerUser2 = None
   \<and> rqPayerId overdraft \<noteq> SELF_ENTITY
   \<and> balanceOf ledgerUser2 ''user_2'' USD = 100000 \<and> rqAmount overdraft = 250000
   \<and> fitsColumn (rqAmount overdraft) \<and> rqPaymentMethod overdraft = None
   \<and> fst (processTransaction alwaysSucceeds outside0 overdraft ledgerUser2)
        = Failure ''TRANSACTION_ERROR'' ''positive_balance''
   \<and> balanceOf (snd (processTransaction alwaysSucceeds outside0 overdraft ledgerUser2))
        ''user_2'' USD = 100000
   \<and> balanceOf (snd (processTransaction alwaysSucceeds outside0 overdraft ledgerUser2))
        ''user_3'' USD = 0
   \<and> validateTransaction mockProvider overdraftByCard = Inr ()
   \<and> processPayment (processor mockProvider) lowDraw
        = Inr (declined ''Mock payment failed (random failure)'')
   \<and> fst (processTransaction mockProvider lowDraw overdraftByCard ledgerUser2)
        = Failure ''PAYMENT_FAILED'' ''Mock payment failed (random failure)''
   \<and> balanceOf (snd (processTransaction mockProvider lowDraw overdraftByCard ledgerUser2))
        ''user_2'' USD = 100000"
proof -
  have h0: "nonNegative ledgerUser2" by code_simp
  have h1: "validateTransaction alwaysSucceeds overdraft = Inr ()" by code_simp
  have h2: "existingFor overdraft ledgerUser2 = None" by code_simp
  have h3: "rqPayerId overdraft \<noteq> SELF_ENTITY" by code_simp
  have h4: "balanceOf ledgerUser2 ''user_2'' USD = 100000" by code_simp
  have h5: "rqAmount overdraft = 250000" by code_simp
  have h6: "rqPayerId overdraft = ''user_2''" by code_simp
  have h7: "dCurrency (pendingData alwaysSucceeds overdraft) = USD" by code_simp
  have h8: "rqPaymentMethod overdraft = None" by code_simp
  have h9: "balanceOf ledgerUser2 ''user_3'' USD = 0" by code_simp
  have h10: "fitsColumn (rqAmount overdraft)" by code_simp
  have m1: "validateTransaction mockProvider overdraftByCard = Inr ()" by code_simp
  have m2: "existingFor overdraftByCard ledgerUser2 = None" by code_simp
  have m3: "rqPayerId overdraftByCard = ''user_2''" by code_simp
  have m4: "dCurrency (pendingData mockProvider overdraftByCard) = USD" by code_simp
  have m5: "rqAmount overdraftByCard = 250000" by code_simp
  have m6: "processPayment (processor mockProvider) lowDraw
              = Inr (declined ''Mock payment failed (random failure)'')" by code_simp
  have m7: "fst (processTransaction mockProvider lowDraw overdraftByCard ledgerUser2)
              = Failure ''PAYMENT_FAILED'' ''Mock payment failed (random failure)''" by code_simp
  have m8: "''user_2'' \<noteq> SELF_ENTITY" by code_simp
  from balances_never_negative[of ledgerUser2 alwaysSucceeds
         "[(outside0, Transfer (transfer ''user_2'' ''user_3'' 50000)),
           (outside0, Transfer overdraft),
           (outside0, RefundOf \<lparr> transactionId = 2, rfAmount = None, rfReason = None \<rparr>)]"
         overdraft outside0]
       h0 h1 h2 h3 h4 h5 h6 h7 h8 h9 h10
  have a: "nonNegative (runCalls alwaysSucceeds
        [(outside0, Transfer (transfer ''user_2'' ''user_3'' 50000)),
         (outside0, Transfer overdraft),
         (outside0, RefundOf \<lparr> transactionId = 2, rfAmount = None, rfReason = None \<rparr>)]
        ledgerUser2)
     \<and> fst (processTransaction alwaysSucceeds outside0 overdraft ledgerUser2)
        = Failure ''TRANSACTION_ERROR'' ''positive_balance''
     \<and> balanceOf (snd (processTransaction alwaysSucceeds outside0 overdraft ledgerUser2))
        ''user_2'' USD = 100000
     \<and> balanceOf (snd (processTransaction alwaysSucceeds outside0 overdraft ledgerUser2))
        ''user_3'' USD = 0"
    by simp
  from balances_never_negative[of ledgerUser2 mockProvider "[]" overdraftByCard lowDraw]
       m1 m2 m3 m4 m5 m8 h4
  have b: "balanceOf (snd (processTransaction mockProvider lowDraw overdraftByCard ledgerUser2))
        ''user_2'' USD = 100000"
    by simp
  from a b h0 h1 h2 h3 h4 h5 h8 h10 m1 m6 m7 show ?thesis by simp
qed

theorem overdraft_counterexample:
  "balanceOf ledgerUser2 ''user_2'' USD = 100000 \<and> rqAmount overdraftByCard = 250000
   \<and> fst (processTransaction mockProvider lowDraw overdraftByCard ledgerUser2)
     = Failure ''PAYMENT_FAILED'' ''Mock payment failed (random failure)''
   \<and> fst (processTransaction alwaysSucceeds outside0 overdraft ledgerUser2)
     = Failure ''TRANSACTION_ERROR'' ''positive_balance''
   \<and> map status (transactions (snd (processTransaction alwaysSucceeds outside0 overdraft ledgerUser2)))
     = [pending]"
  by code_simp

text \<open>
  C2. The request is valid (payer and payee differ, the amount is positive) and the card is
  charged, but user_2 holds 10.00 only: the store rejects the debit of 25.00, the catch
  block returns TRANSACTION_ERROR, and the transaction stays in status processing.
\<close>

theorem failed_debit_leaves_transaction_processing:
  "validateTransaction alwaysSucceeds overdraftByCard = Inr ()
   \<and> fst (processTransaction alwaysSucceeds outside0 overdraftByCard ledgerUser2)
       = Failure ''TRANSACTION_ERROR'' ''positive_balance''
   \<and> map status
       (transactions (snd (processTransaction alwaysSucceeds outside0 overdraftByCard ledgerUser2)))
       = [processing]
   \<and> map_option status
       (getTransaction 2
          (snd (processTransaction alwaysSucceeds outside0 overdraftByCard ledgerUser2)))
       = Some processing
   \<and> processorLog (snd (processTransaction alwaysSucceeds outside0 overdraftByCard ledgerUser2))
       = [Charge 250000 USD credit_card 2 ''user_2'' ''user_3'']"
  by code_simp

text \<open>
  C5. user_1 holds 0 and pays 49.99 to SELF by card through a processor that always
  succeeds. The charge succeeds and its reference is stored; updateBalances then debits
  user_1, the store rejects the debit, and the call returns TRANSACTION_ERROR with the
  transaction in status processing. The balance of user_1 is still 0. The request of the
  README's test, a new user paying 10.00 to SELF, fails in the same way.
\<close>

theorem self_payment_with_zero_balance:
  "balanceOf ledgerUser1 ''user_1'' USD = 0
   \<and> processPayment (processor alwaysSucceeds) outside0 = Inr (succeeded ''stripe_1000_abc'')
   \<and> fst (processTransaction alwaysSucceeds outside0 selfPayment ledgerUser1)
       = Failure ''TRANSACTION_ERROR'' ''positive_balance''
   \<and> map status
       (transactions (snd (processTransaction alwaysSucceeds outside0 selfPayment ledgerUser1)))
       = [processing]
   \<and> map_option status
       (getTransaction 2 (snd (processTransaction alwaysSucceeds outside0 selfPayment ledgerUser1)))
       = Some processing
   \<and> map processorReference
       (transactions (snd (processTransaction alwaysSucceeds outside0 selfPayment ledgerUser1)))
       = [Some ''stripe_1000_abc'']
   \<and> balanceOf (snd (processTransaction alwaysSucceeds outside0 selfPayment ledgerUser1))
       ''user_1'' USD = 0
   \<and> fst (processTransaction readmeConfig outside0 readmeRequest (ledgerWith []))
       = Failure ''TRANSACTION_ERROR'' ''positive_balance''
   \<and> map status
       (transactions (snd (processTransaction readmeConfig outside0 readmeRequest (ledgerWith []))))
       = [pending]"
  by code_simp

text \<open>
  C8. The original is completed and carries a processorReference, and the processor is
  one whose refund call fails (a real provider outside test mode). The call of the
  processor throws, the catch block of processRefund returns REFUND_ERROR, and the refund
  transaction stays in status processing; the accounts table is untouched and the original
  stays completed.
\<close>

theorem thrown_refund_leaves_refund_processing:
  "refundsEnabled alwaysFails
   \<and> getTransaction (transactionId refundOfPaid) ledgerPaid = Some paidRow
   \<and> status paidRow = completed
   \<and> processorReference paidRow = Some ''stripe_900_xyz''
   \<and> processorRefund (processor alwaysFails) = Inl ''Stripe refund not yet implemented''
   \<and> fst (processRefund alwaysFails outside0 refundOfPaid ledgerPaid)
       = Failure ''REFUND_ERROR'' ''Stripe refund not yet implemented''
   \<and> map status (transactions (snd (processRefund alwaysFails outside0 refundOfPaid ledgerPaid)))
       = [completed, processing]
   \<and> accounts (snd (processRefund alwaysFails outside0 refundOfPaid ledgerPaid))
       = accounts ledgerPaid"
  by code_simp

text \<open>
  C9. The stored payment is one of 10.00 and the request asks to refund 25.00 of it.
  processRefund compares the two amounts nowhere: the refund succeeds, its transaction
  carries 25.00, and user_2, who had paid 10.00, is credited 25.00.
\<close>

theorem excess_refund_is_accepted:
  "getTransaction (transactionId excessRefund) ledgerPaid = Some paidRow
   \<and> amount paidRow = 100000 \<and> rfAmount excessRefund = Some 250000
   \<and> fst (processRefund alwaysSucceeds outside0 excessRefund ledgerPaid) = Success excessRefundRow
   \<and> amount excessRefundRow = 250000
   \<and> balanceOf ledgerPaid ''user_2'' USD = 0
   \<and> balanceOf (snd (processRefund alwaysSucceeds outside0 excessRefund ledgerPaid))
        ''user_2'' USD = 250000"
  by code_simp

lemma processRefund_disabled:
  "\<not> refundsEnabled cfg \<Longrightarrow>
   processRefund cfg out request w = (Failure ''REFUNDS_DISABLED'' ''Refunds are not enabled'', w)"
  by (simp add: processRefund_def processRefundTry_def resolve_def)

text \<open>
  C4 (as amended). When processTransaction has created and completed a transaction and
  the next call refunds it for its full amount with success, then the balance of every
  owner in every currency is what it was before the transaction, and the transactions
  table has grown by exactly two rows: the original, now in status refunded and otherwise
  as it was (but for updatedAt), and the refund in status completed, with payer and payee
  swapped, the same amount and currency, and the original's identifier in its metadata.
  The original row carries no reference to the refund.
\<close>

theorem full_refund_restores_balances:
  assumes "existingFor request w0 = None"
    and "processTransaction cfg out1 request w0 = (Success t, w1)"
    and "transactionId refund = txId t"
    and "rfAmount refund = None \<or> rfAmount refund = Some (amount t)"
    and "processRefund cfg out2 refund w1 = (Success r, w2)"
  shows "(\<forall>owner cur. balanceOf w2 owner cur = balanceOf w0 owner cur)
       \<and> transactions w2 = transactions w0 @ [t\<lparr>status := refunded, updatedAt := now out2\<rparr>, r]
       \<and> status t = completed \<and> status r = completed
       \<and> payerId r = payeeId t \<and> payeeId r = payerId t
       \<and> amount r = amount t \<and> currency r = currency t
       \<and> originalTransactionId (metadata r) = Some (txId t)"
proof -
  have valid: "validateTransaction cfg request = Inr ()"
  proof (cases "validateTransaction cfg request")
    case (Inl msg)
    from processTransaction_invalid[OF this, of out1 w0] assms(2) show ?thesis by simp
  next
    case (Inr u)
    then show ?thesis by simp
  qed
  from validateTransaction_ok[OF valid]
  have pos: "0 < rqAmount request" and diff: "rqPayerId request \<noteq> rqPayeeId request" by simp_all
  from processTransaction_new[OF valid assms(1), of out1] assms(2)
  have run: "processNew cfg out1 request w0 = (Inr (Success t), w1)"
    by (auto split: prod.splits sum.splits)
  note paid = processNew_Success[OF pos diff run]
  have tr1: "transactions w1 = transactions w0 @ [t]" by (rule paid(1))
  have idt: "txId t = generateId w0" by (rule paid(2))
  have st: "status t = completed" by (rule paid(3))
  have fields: "payerId t = rqPayerId request" "payeeId t = rqPayeeId request"
    "amount t = rqAmount request" using paid(4) by simp_all
  have fresh: "txId t \<notin> txId ` set (transactions w0)"
    unfolding idt by (rule generateId_fresh_tx)
  have found: "getTransaction (transactionId refund) w1 = Some t"
    unfolding assms(3) by (rule getTransaction_last[OF tr1 fresh])
  have enabled: "refundsEnabled cfg"
  proof (rule ccontr)
    assume "\<not> refundsEnabled cfg"
    from processRefund_disabled[OF this, of out2 refund w1] assms(5) show False by simp
  qed
  have ra: "refundAmountOf refund t = amount t"
    using assms(4) pos fields(3) by (auto simp: refundAmountOf_def)
  have rpos: "0 < refundAmountOf refund t" using ra pos fields(3) by simp
  have rfits: "fitsColumn (refundAmountOf refund t)" using ra paid(7) fields(3) by simp
  have tdiff: "payerId t \<noteq> payeeId t" using diff fields by simp
  note ref = processRefund_found[OF enabled found st, of out2]
  have go: "processorReference t = None \<or> processorReference t = Some []
              \<or> (\<exists>result. processorRefund (processor cfg) = Inr result)"
  proof (rule ccontr)
    assume "\<not> ?thesis"
    then obtain pr e where pr: "processorReference t = Some pr" "pr \<noteq> []"
      and no: "processorRefund (processor cfg) = Inl e"
      by (cases "processorReference t"; cases "processorRefund (processor cfg)") auto
    from ref[unfolded refundNew_thrown[OF found rpos tdiff rfits pr no]] assms(5)
    show False by simp
  qed
  let ?r0 = "newTransaction (generateId w1) out2 (refundData refund t)"
  let ?rc = "?r0\<lparr>status := completed, completedAt := Some (now out2)\<rparr>"
  from refundNew_settled[OF found rpos tdiff rfits go, of out2]
  obtain L where eq: "refundNew cfg out2 refund t w1 =
     (case fst (updateBalances out2 (payeeId t) (payerId t) (refundAmountOf refund t)
                  (currency t)
                  (w1\<lparr>processorLog := L, transactions := transactions w1 @ [?r0]\<rparr>)) of
        Inl e \<Rightarrow>
          (Inl e, snd (updateBalances out2 (payeeId t) (payerId t)
                         (refundAmountOf refund t) (currency t)
                         (w1\<lparr>processorLog := L, transactions := transactions w1 @ [?r0]\<rparr>)))
      | Inr _ \<Rightarrow>
          (Inr (Success ?rc),
           (snd (updateBalances out2 (payeeId t) (payerId t)
                   (refundAmountOf refund t) (currency t)
                   (w1\<lparr>processorLog := L, transactions := transactions w1 @ [?r0]\<rparr>)))
             \<lparr>transactions :=
                 updateRows (txId t) (t\<lparr>status := refunded, updatedAt := now out2\<rparr>)
                   (transactions w1) @ [?rc],
              events := events w1 @ [(''service:payment:refund:completed'', ?rc)]\<rparr>))"
    by blast
  let ?wx = "w1\<lparr>processorLog := L, transactions := transactions w1 @ [?r0]\<rparr>"
  let ?ub = "updateBalances out2 (payeeId t) (payerId t) (refundAmountOf refund t) (currency t) ?wx"
  obtain u where ok: "fst ?ub = Inr u"
    using ref[unfolded eq] assms(5) by (cases "fst ?ub") auto
  from ref[unfolded eq] assms(5) ok
  have r: "r = ?rc"
    and w2: "w2 = (snd ?ub)\<lparr>transactions :=
                 updateRows (txId t) (t\<lparr>status := refunded, updatedAt := now out2\<rparr>)
                   (transactions w1) @ [?rc],
              events := events w1 @ [(''service:payment:refund:completed'', ?rc)]\<rparr>"
    by auto
  have rows: "updateRows (txId t) (t\<lparr>status := refunded, updatedAt := now out2\<rparr>) (transactions w1)
                = transactions w0 @ [t\<lparr>status := refunded, updatedAt := now out2\<rparr>]"
    unfolding tr1 updateRows_append updateRows_fresh[OF fresh]
    by (simp add: updateRows_def)
  have bal: "balanceOf w2 owner cur = balanceOf w0 owner cur" for owner cur
    using updateBalances_balanceOf[OF ok, of owner cur] paid(6)[of owner cur] fields ra tdiff
    by (simp add: w2)
  have rfields: "status ?rc = completed \<and> payerId ?rc = payeeId t \<and> payeeId ?rc = payerId t
       \<and> amount ?rc = amount t \<and> currency ?rc = currency t
       \<and> originalTransactionId (metadata ?rc) = Some (txId t)"
    using ra assms(3) by (simp add: newTransaction_def refundData_def)
  show ?thesis
    using bal rfields st by (simp add: r w2 rows)
qed

theorem full_refund_witness:
  "existingFor smallTransfer ledgerUser2 = None
   \<and> rfAmount refundOfTransfer = None
   \<and> balanceOf ledgerUser2 ''user_2'' USD = 100000
   \<and> balanceOf (snd (processTransaction alwaysSucceeds outside0 smallTransfer ledgerUser2))
        ''user_2'' USD = 50000
   \<and> balanceOf (snd (processTransaction alwaysSucceeds outside0 smallTransfer ledgerUser2))
        ''user_3'' USD = 50000
   \<and> balanceOf (snd (processRefund alwaysSucceeds (outside0\<lparr>now := 2000\<rparr>) refundOfTransfer
          (snd (processTransaction alwaysSucceeds outside0 smallTransfer ledgerUser2))))
        ''user_2'' USD = 100000
   \<and> balanceOf (snd (processRefund alwaysSucceeds (outside0\<lparr>now := 2000\<rparr>) refundOfTransfer
          (snd (processTransaction alwaysSucceeds outside0 smallTransfer ledgerUser2))))
        ''user_3'' USD = 0
   \<and> map status (transactions (snd (processRefund alwaysSucceeds (outside0\<lparr>now := 2000\<rparr>)
          refundOfTransfer
          (snd (processTransaction alwaysSucceeds outside0 smallTransfer ledgerUser2)))))
        = [refunded, completed]"
proof -
  let ?p = "processTransaction alwaysSucceeds outside0 smallTransfer ledgerUser2"
  let ?q = "processRefund alwaysSucceeds (outside0\<lparr>now := 2000\<rparr>) refundOfTransfer (snd ?p)"
  have h1: "existingFor smallTransfer ledgerUser2 = None" by code_simp
  have "case fst ?p of Success t \<Rightarrow> txId t = 2 \<and> amount t = 50000 | Failure c m \<Rightarrow> False"
    by code_simp
  then obtain t where t: "fst ?p = Success t" and idt: "txId t = 2" and amt: "amount t = 50000"
    by (cases "fst ?p") auto
  have h2: "?p = (Success t, snd ?p)" using t by (simp add: prod_eq_iff)
  have h3: "transactionId refundOfTransfer = txId t" using idt by (simp add: refundOfTransfer_def)
  have h4: "rfAmount refundOfTransfer = None \<or> rfAmount refundOfTransfer = Some (amount t)"
    by (simp add: refundOfTransfer_def)
  have "case fst ?q of Success r \<Rightarrow> True | Failure c m \<Rightarrow> False" by code_simp
  then obtain r where r: "fst ?q = Success r" by (cases "fst ?q") auto
  have h5: "?q = (Success r, snd ?q)" using r by (simp add: prod_eq_iff)
  have e1: "balanceOf ledgerUser2 ''user_2'' USD = 100000"
    and e2: "balanceOf ledgerUser2 ''user_3'' USD = 0"
    and e3: "balanceOf (snd ?p) ''user_2'' USD = 50000"
    and e4: "balanceOf (snd ?p) ''user_3'' USD = 50000"
    and e5: "transactions ledgerUser2 = []"
    and e6: "rfAmount refundOfTransfer = None"
    by code_simp+
  from full_refund_restores_balances[OF h1 h2 h3 h4 h5] e1 e2 e5
  have "balanceOf (snd ?q) ''user_2'' USD = 100000 \<and> balanceOf (snd ?q) ''user_3'' USD = 0
          \<and> map status (transactions (snd ?q)) = [refunded, completed]"
    by simp
  with h1 e1 e3 e4 e6 show ?thesis by simp
qed

theorem refund_back_reference_counterexample:
  "transactions (snd (processRefund alwaysSucceeds (outside0\<lparr>now := 2000\<rparr>) refundOfTransfer
      (snd (processTransaction alwaysSucceeds outside0 smallTransfer ledgerUser2))))
     = [refundedTransferRow, transferRefundRow]
   \<and> txId transferRefundRow = 4
   \<and> originalTransactionId (metadata transferRefundRow) = Some (txId refundedTransferRow)
   \<and> metadata refundedTransferRow = emptyMetadata
   \<and> processorReference refundedTransferRow = None"
  by code_simp

end
